theory Spec2Isabelle
  imports Complex_Main "HOL-Library.AList" "HOL-Library.Sublist"
begin

section \<open>JavaScript numbers\<close>

text \<open>
  A \<open>number\<close> of the source is a finite value, one of the two infinities, or NaN.
  Finite values are reals; the one arithmetic operation of the source that rounds (the
  product in \<open>getColorByScore\<close>) takes the rounding function \<open>rnd\<close> of the machine
  as an argument. \<open>Math.max\<close>, \<open>Math.min\<close> and \<open>Math.floor\<close> are exact on binary64
  values. Negative zero is not told apart from zero: the source only uses it as an
  array index and as an operand of \<open>Math.max\<close>, where both behave alike.
\<close>

datatype number = Num real | PosInf | NegInf | NaN

fun Math_min :: "number \<Rightarrow> number \<Rightarrow> number" where
  "Math_min NaN y = NaN"
| "Math_min x NaN = NaN"
| "Math_min NegInf y = NegInf"
| "Math_min x NegInf = NegInf"
| "Math_min PosInf y = y"
| "Math_min x PosInf = x"
| "Math_min (Num a) (Num b) = Num (min a b)"

fun Math_max :: "number \<Rightarrow> number \<Rightarrow> number" where
  "Math_max NaN y = NaN"
| "Math_max x NaN = NaN"
| "Math_max PosInf y = PosInf"
| "Math_max x PosInf = PosInf"
| "Math_max NegInf y = y"
| "Math_max x NegInf = x"
| "Math_max (Num a) (Num b) = Num (max a b)"

fun Math_floor :: "number \<Rightarrow> number" where
  "Math_floor (Num a) = Num (of_int \<lfloor>a\<rfloor>)"
| "Math_floor x = x"

fun is_zero :: "number \<Rightarrow> bool" where
  "is_zero (Num a) = (a = 0)"
| "is_zero x = False"

fun is_negative :: "number \<Rightarrow> bool" where
  "is_negative (Num a) = (a < 0)"
| "is_negative NegInf = True"
| "is_negative x = False"

text \<open>
  The operator \<open>*\<close>: the exact product of two finite values is rounded by \<open>rnd\<close>
  (overflow of a finite product to an infinity is not modelled: the products of the
  source lie between 0 and 10); an infinity times zero is NaN.
\<close>

fun times_number :: "(real \<Rightarrow> real) \<Rightarrow> number \<Rightarrow> number \<Rightarrow> number" where
  "times_number rnd NaN y = NaN"
| "times_number rnd x NaN = NaN"
| "times_number rnd (Num a) (Num b) = Num (rnd (a * b))"
| "times_number rnd x y =
     (if is_zero x \<or> is_zero y then NaN
      else if is_negative x = is_negative y then PosInf else NegInf)"

text \<open>The comparison \<open>x > 0\<close>: false for NaN.\<close>

fun greater_zero :: "number \<Rightarrow> bool" where
  "greater_zero (Num a) = (0 < a)"
| "greater_zero PosInf = True"
| "greater_zero x = False"

text \<open>
  \<open>xs[k]\<close> for an array \<open>xs\<close> and a number \<open>k\<close>: the element when \<open>k\<close> is an
  integer within the bounds, \<open>undefined\<close> (here \<open>None\<close>) otherwise; no exception.
\<close>

fun array_get :: "'a list \<Rightarrow> number \<Rightarrow> 'a option" where
  "array_get xs (Num a) =
     (if a = of_int \<lfloor>a\<rfloor> \<and> 0 \<le> a \<and> nat \<lfloor>a\<rfloor> < length xs
      then Some (xs ! nat \<lfloor>a\<rfloor>) else None)"
| "array_get xs x = None"

text \<open>
  What the proofs need of the machine's rounding: it is monotone, and its relative
  error is at most \<open>2\<^sup>-\<^sup>5\<^sup>3\<close> (round to nearest in binary64; a product of a binary64
  value in \<open>[0, 1]\<close> with 10 is either exact or in the normal range).
\<close>

definition rounding :: "(real \<Rightarrow> real) \<Rightarrow> bool" where
  "rounding rnd = (mono rnd \<and> (\<forall>x. \<bar>rnd x - x\<bar> \<le> \<bar>x\<bar> / 2 ^ 53))"

section \<open>Score Classifier\<close>

definition colors :: "string list" where
  "colors =
     [''#FF0000'', ''#FF3800'', ''#FF7000'', ''#FFA800'', ''#FFE000'',
      ''#E0FF00'', ''#A8FF00'', ''#70FF00'', ''#38FF00'', ''#00FF00'']"

text \<open>The local \<open>clampedIndex\<close> of \<open>getColorByScore\<close>.\<close>

definition clampedIndex :: "(real \<Rightarrow> real) \<Rightarrow> number \<Rightarrow> number" where
  "clampedIndex rnd score =
     (let normalized = Math_max (Num 0) (Math_min (Num 1) score);
          index = Math_floor (times_number rnd normalized (Num 10))
      in Math_max (Num 0) (Math_min (Num 9) index))"

definition getColorByScore :: "(real \<Rightarrow> real) \<Rightarrow> number \<Rightarrow> string option" where
  "getColorByScore rnd score = array_get colors (clampedIndex rnd score)"

text \<open>
  The contract in the specification's words: clamp the score to \<open>[0, 1]\<close>, take the
  floor of ten times it (the product as the machine rounds it), clamp to \<open>[0, 9]\<close>.
\<close>

definition spec_bucket :: "(real \<Rightarrow> real) \<Rightarrow> real \<Rightarrow> int" where
  "spec_bucket rnd s = max 0 (min 9 \<lfloor>rnd (max 0 (min 1 s) * 10)\<rfloor>)"

section \<open>The host's data view\<close>

text \<open>
  A category column holds primitive values (\<open>PrimitiveValue\<close>): strings, numbers,
  booleans and null. The source reads a category value in one way only, through
  \<open>String\<close> (and the template literal of the tooltip, which converts alike), so a
  number is carried as the text that the conversion of numbers to strings gives for
  it: \<open>PNumber ''12''\<close> is the number 12, \<open>PNumber ''0.5''\<close> the number 0.5. A value
  column is read \<open>as number\<close>.
\<close>

datatype primitive = PString string | PNumber string | PBool bool | PNull

fun String :: "primitive \<Rightarrow> string" where
  "String (PString s) = s"
| "String (PNumber text) = text"
| "String (PBool b) = (if b then ''true'' else ''false'')"
| "String PNull = ''null''"

record DataViewCategoryColumn =
  c_source :: string
  c_values :: "primitive list"

record DataViewValueColumn =
  v_source :: string
  v_values :: "number list"

text \<open>\<open>valueColumns\<close> is the field \<open>values\<close> of \<open>DataViewCategorical\<close>.\<close>

record DataViewCategorical =
  categories :: "DataViewCategoryColumn list option"
  valueColumns :: "DataViewValueColumn list option"

record DataView =
  categorical :: "DataViewCategorical option"

record VisualUpdateOptions =
  dataViews :: "DataView list option"

text \<open>
  A selection identifier is opaque to the visual; the host builds it from the category
  column and the row index given to \<open>withCategory\<close>.
\<close>

datatype ISelectionId = SelectionId DataViewCategoryColumn nat

section \<open>The visual and its environment\<close>

text \<open>
  The remote layer made by \<open>LEsri.featureLayer\<close>: its service and its \<open>where\<close>
  filter. Its style and feature callbacks read \<open>scoreMap\<close> and \<open>selectionIdMap\<close> when
  the service answers; they change no state of the visual.
\<close>

record FeatureLayer =
  f_url :: string
  f_where :: string

datatype callback = InitLayersAndUI | InvalidateSize

datatype error = TypeError

text \<open>
  The fields of the class, then what it reaches in the browser and in Leaflet:
  the callbacks queued by \<open>requestAnimationFrame\<close>, the console, the feature groups
  that exist (a store: \<open>fglayer\<close> is an index into it), the groups the map holds,
  the number of legend controls on the map, the interval timers that are active with
  the number of handles issued so far, whether the \<open>visibilitychange\<close> listener is
  registered, and the number of refresh requests sent to the feature service.
  A \<open>Map\<close> is an association list in insertion order; \<open>None\<close> as a score is
  \<open>undefined\<close>. \<open>legend\<close> tells whether \<open>this.legend\<close> is set; \<open>layerControl\<close>
  holds the overlays registered with the control.
\<close>

record Visual =
  inited :: bool
  layerControl :: "(nat \<times> string) list option"
  legend :: bool
  fglayer :: "nat option"
  saonesLayer :: "FeatureLayer option"
  saones :: "string list"
  cands :: "primitive list"
  scoreMap :: "(string \<times> number option) list"
  selectionIdMap :: "(string \<times> ISelectionId) list"
  autoRefreshTimer :: "nat option"
  frames :: "callback list"
  console :: "string list"
  featureGroups :: "FeatureLayer list list"
  mapLayers :: "nat list"
  legends :: nat
  timers :: "(nat \<times> number) list"
  handles :: nat
  listening :: bool
  refreshes :: nat

definition constructor :: Visual where
  "constructor =
     \<lparr>inited = False, layerControl = None, legend = False, fglayer = None,
      saonesLayer = None, saones = [], cands = [], scoreMap = [], selectionIdMap = [],
      autoRefreshTimer = None, frames = [], console = [], featureGroups = [],
      mapLayers = [], legends = 0, timers = [], handles = 0, listening = False,
      refreshes = 0\<rparr>"

definition console_log :: "string \<Rightarrow> Visual \<Rightarrow> Visual" where
  "console_log msg s = s\<lparr>console := console s @ [msg]\<rparr>"

definition requestAnimationFrame :: "callback \<Rightarrow> Visual \<Rightarrow> Visual" where
  "requestAnimationFrame cb s = s\<lparr>frames := frames s @ [cb]\<rparr>"

text \<open>\<open>window.setInterval\<close> hands out a fresh handle, an integer greater than zero.\<close>

definition setInterval :: "number \<Rightarrow> Visual \<Rightarrow> nat \<times> Visual" where
  "setInterval ms s =
     (let h = Suc (handles s)
      in (h, s\<lparr>timers := timers s @ [(h, ms)], handles := h\<rparr>))"

definition clearInterval :: "nat \<Rightarrow> Visual \<Rightarrow> Visual" where
  "clearInterval h s = s\<lparr>timers := filter (\<lambda>t. fst t \<noteq> h) (timers s)\<rparr>"

section \<open>Refresh Scheduler\<close>

definition refreshAllLayers :: "Visual \<Rightarrow> Visual" where
  "refreshAllLayers s =
     (case saonesLayer s of
        None \<Rightarrow> s
      | Some l \<Rightarrow> s\<lparr>refreshes := Suc (refreshes s)\<rparr>)"

text \<open>\<open>if (this.autoRefreshTimer)\<close> is false for \<open>null\<close> and for 0.\<close>

definition startAutoRefresh :: "number \<Rightarrow> Visual \<Rightarrow> Visual" where
  "startAutoRefresh ms s =
     (let s1 = (case autoRefreshTimer s of
                  None \<Rightarrow> s
                | Some h \<Rightarrow> if h \<noteq> 0 then clearInterval h s else s)
      in if greater_zero ms
         then (let (h, s2) = setInterval ms s1 in s2\<lparr>autoRefreshTimer := Some h\<rparr>)
         else s1)"

section \<open>Legend Builder\<close>

text \<open>The contents of the legend are fixed and are not part of the state.\<close>

definition addLegend :: "Visual \<Rightarrow> Visual" where
  "addLegend s = s\<lparr>legends := Suc (legends s), legend := True\<rparr>"

definition updateLegend :: "Visual \<Rightarrow> Visual" where
  "updateLegend s = (if \<not> legend s then addLegend s else s)"

section \<open>Boundary Layer Manager\<close>

text \<open>\<open>Array.prototype.join\<close>: the separator goes before every element but the first.\<close>

fun join :: "string \<Rightarrow> string list \<Rightarrow> string" where
  "join sep [] = []"
| "join sep (x # xs) = foldl (\<lambda>acc y. acc @ sep @ y) x xs"

definition sa1s :: "string list \<Rightarrow> string" where
  "sa1s codes = join '','' (map (\<lambda>code. [CHR 0x27] @ code @ [CHR 0x27]) codes)"

definition whereClause :: "string list \<Rightarrow> string" where
  "whereClause codes = ''sa1_code_2021 IN ('' @ sa1s codes @ '')''"

definition tims :: string where
  "tims = ''https://geo.abs.gov.au/arcgis/rest/services/ASGS2021/SA1/FeatureServer/0''"

text \<open>
  The first statement of \<open>updateSaonesLayer\<close>: an existing group is cleared when the
  map holds it; otherwise a group is created, added to the map and, when the layer
  control exists, registered with it. The result is the group and the new state.
\<close>

definition prepareGroup :: "Visual \<Rightarrow> nat \<times> Visual" where
  "prepareGroup s =
     (case fglayer s of
        Some g \<Rightarrow>
          (g, if g \<in> set (mapLayers s)
              then s\<lparr>featureGroups := (featureGroups s)[g := []]\<rparr>
              else s)
      | None \<Rightarrow>
          (let g = length (featureGroups s);
               s1 = s\<lparr>featureGroups := featureGroups s @ [[]],
                      mapLayers := mapLayers s @ [g],
                      fglayer := Some g\<rparr>
           in (g, case layerControl s1 of
                    Some overlays \<Rightarrow>
                      s1\<lparr>layerControl := Some (overlays @ [(g, ''SA1 Boundaries'')])\<rparr>
                  | None \<Rightarrow> s1)))"

definition updateSaonesLayer :: "Visual \<Rightarrow> Visual" where
  "updateSaonesLayer s =
     (let (g, s1) = prepareGroup s;
          layer = \<lparr>f_url = tims, f_where = whereClause (saones s1)\<rparr>;
          s2 = s1\<lparr>saonesLayer := Some layer,
                 featureGroups := (featureGroups s1)[g := featureGroups s1 ! g @ [layer]]\<rparr>
      in s2\<lparr>refreshes := Suc (refreshes s2)\<rparr>)"

text \<open>The style callback's fill colour for a feature with the given area code.\<close>

definition Map_get :: "('k \<times> 'v option) list \<Rightarrow> 'k \<Rightarrow> 'v option" where
  "Map_get m k = (case map_of m k of None \<Rightarrow> None | Some v \<Rightarrow> v)"

definition fillColor :: "(real \<Rightarrow> real) \<Rightarrow> Visual \<Rightarrow> string \<Rightarrow> string option" where
  "fillColor rnd s sa1Code =
     (case Map_get (scoreMap s) sa1Code of
        None \<Rightarrow> Some ''#cccccc''
      | Some score \<Rightarrow> getColorByScore rnd score)"

section \<open>Plugin Lifecycle Shell and Data Binder\<close>

definition initLayersAndUI :: "Visual \<Rightarrow> Visual" where
  "initLayersAndUI s =
     (let s1 = s\<lparr>layerControl := Some []\<rparr>;
          s2 = addLegend s1;
          s3 = startAutoRefresh (Num (6 * 60 * 60 * 1000)) s2;
          s4 = s3\<lparr>listening := True\<rparr>
      in if length (saones s4) > 0 then updateSaonesLayer s4 else s4)"

text \<open>\<open>scores[i]\<close>: \<open>undefined\<close> past the end of the array.\<close>

definition nth_opt :: "'a list \<Rightarrow> nat \<Rightarrow> 'a option" where
  "nth_opt xs i = (if i < length xs then Some (xs ! i) else None)"

text \<open>The loop of \<open>update\<close> that stores scores and selection identifiers, from row \<open>i\<close> on.\<close>

function storeRows :: "DataViewCategoryColumn \<Rightarrow> number list \<Rightarrow> nat \<Rightarrow> Visual \<Rightarrow> Visual" where
  "storeRows category0 scores i s =
     (if i < length (saones s)
      then (let sa1Code = saones s ! i;
                score = nth_opt scores i;
                s1 = s\<lparr>scoreMap := AList.update sa1Code score (scoreMap s)\<rparr>;
                selectionId = SelectionId category0 i
            in storeRows category0 scores (Suc i)
                 (s1\<lparr>selectionIdMap := AList.update sa1Code selectionId (selectionIdMap s1)\<rparr>))
      else s)"
  by pat_completeness auto
termination
  by (relation "measure (\<lambda>(category0, scores, i, s). length (saones s) - i)") auto

declare storeRows.simps [simp del]

definition update :: "VisualUpdateOptions \<Rightarrow> Visual \<Rightarrow> (error + unit) \<times> Visual" where
  "update options s =
     (let s1 = (if \<not> inited s
                then requestAnimationFrame InitLayersAndUI (s\<lparr>inited := True\<rparr>)
                else s);
          s2 = requestAnimationFrame InvalidateSize s1;
          dataView = (case dataViews options of
                        None \<Rightarrow> None
                      | Some [] \<Rightarrow> None
                      | Some (dv # rest) \<Rightarrow> Some dv)
      in case dataView of
           None \<Rightarrow> (Inr (), console_log ''No data'' s2)
         | Some dv \<Rightarrow>
        (case categorical dv of
           None \<Rightarrow> (Inr (), console_log ''No data'' s2)
         | Some cat \<Rightarrow>
        (case categories cat of
           None \<Rightarrow> (Inr (), console_log ''Not enough categories'' s2)
         | Some [] \<Rightarrow> (Inr (), console_log ''Not enough categories'' s2)
         | Some [category0] \<Rightarrow> (Inl TypeError, s2)
         | Some (category0 # category1 # rest) \<Rightarrow>
             (let s3 = s2\<lparr>cands := c_values category1\<rparr>;
                  s4 = s3\<lparr>saones := map String (c_values category0)\<rparr>;
                  s5 = (case valueColumns cat of
                          None \<Rightarrow> s4
                        | Some [] \<Rightarrow> s4
                        | Some (scores # others) \<Rightarrow>
                            console_log ''Scores stored (expecting 0-1 range)''
                              (storeRows category0 (v_values scores) 0
                                 (s4\<lparr>scoreMap := [], selectionIdMap := []\<rparr>)))
              in (Inr (),
                  if inited s5 \<and> length (saones s5) > 0
                  then updateLegend (updateSaonesLayer s5)
                  else s5)))))"

text \<open>
  What the host and the browser do to a visual: an update, an animation frame (the
  queued callbacks run in order), a tick of the active timers, a visibility change.
  An exception of \<open>update\<close> goes to the host; the visual keeps the state it had
  reached.
\<close>

fun runCallback :: "callback \<Rightarrow> Visual \<Rightarrow> Visual" where
  "runCallback InitLayersAndUI s = initLayersAndUI s"
| "runCallback InvalidateSize s = s"

definition animationFrame :: "Visual \<Rightarrow> Visual" where
  "animationFrame s = fold runCallback (frames s) (s\<lparr>frames := []\<rparr>)"

definition onVisibilityRefresh :: "bool \<Rightarrow> Visual \<Rightarrow> Visual" where
  "onVisibilityRefresh visible s = (if visible then refreshAllLayers s else s)"

datatype event = Update VisualUpdateOptions | AnimationFrame | TimerTick | VisibilityChange bool

fun step :: "event \<Rightarrow> Visual \<Rightarrow> Visual" where
  "step (Update options) s = snd (update options s)"
| "step AnimationFrame s = animationFrame s"
| "step TimerTick s = fold (\<lambda>t. refreshAllLayers) (timers s) s"
| "step (VisibilityChange visible) s =
     (if listening s then onVisibilityRefresh visible s else s)"

definition run :: "event list \<Rightarrow> Visual \<Rightarrow> Visual" where
  "run evs s = fold step evs s"

section \<open>The claims' vocabulary\<close>

text \<open>How many categorical and numeric columns the data view of an update supplies.\<close>

definition firstCategorical :: "VisualUpdateOptions \<Rightarrow> DataViewCategorical option" where
  "firstCategorical options =
     (case dataViews options of
        None \<Rightarrow> None
      | Some [] \<Rightarrow> None
      | Some (dv # rest) \<Rightarrow> categorical dv)"

definition categoricalColumns :: "VisualUpdateOptions \<Rightarrow> nat" where
  "categoricalColumns options =
     (case firstCategorical options of
        None \<Rightarrow> 0
      | Some cat \<Rightarrow> (case categories cat of None \<Rightarrow> 0 | Some cs \<Rightarrow> length cs))"

definition numericColumns :: "VisualUpdateOptions \<Rightarrow> nat" where
  "numericColumns options =
     (case firstCategorical options of
        None \<Rightarrow> 0
      | Some cat \<Rightarrow> (case valueColumns cat of None \<Rightarrow> 0 | Some vs \<Rightarrow> length vs))"

text \<open>The category column at a position of the data view, when there is one.\<close>

definition categoryColumn :: "VisualUpdateOptions \<Rightarrow> nat \<Rightarrow> DataViewCategoryColumn option" where
  "categoryColumn options k =
     (case firstCategorical options of
        None \<Rightarrow> None
      | Some cat \<Rightarrow> (case categories cat of None \<Rightarrow> None | Some cs \<Rightarrow> nth_opt cs k))"

text \<open>The first numeric column of the data view, when there is one.\<close>

definition scoreColumn :: "VisualUpdateOptions \<Rightarrow> DataViewValueColumn option" where
  "scoreColumn options =
     (case firstCategorical options of
        None \<Rightarrow> None
      | Some cat \<Rightarrow> (case valueColumns cat of None \<Rightarrow> None | Some vs \<Rightarrow> nth_opt vs 0))"

text \<open>A batch of rows (area code, candidate label, score) as the host delivers it.\<close>

definition batch :: "(string \<times> string \<times> real) list \<Rightarrow> VisualUpdateOptions" where
  "batch rows =
     \<lparr>dataViews = Some
        [\<lparr>categorical = Some
           \<lparr>categories = Some
              [\<lparr>c_source = ''sa1'', c_values = map (\<lambda>(a, c, x). PString a) rows\<rparr>,
               \<lparr>c_source = ''cand'', c_values = map (\<lambda>(a, c, x). PString c) rows\<rparr>],
            valueColumns = Some
              [\<lparr>v_source = ''score'', v_values = map (\<lambda>(a, c, x). Num x) rows\<rparr>]\<rparr>\<rparr>]\<rparr>"

text \<open>A refresh call of the Boundary Layer Manager on the area codes known at that time.\<close>

definition refreshWith :: "string list \<Rightarrow> Visual \<Rightarrow> Visual" where
  "refreshWith codes s = updateSaonesLayer (s\<lparr>saones := codes\<rparr>)"

text \<open>The keys of a \<open>Map\<close>.\<close>

definition keys :: "('k \<times> 'v) list \<Rightarrow> 'k set" where
  "keys m = fst ` set m"

text \<open>The filter in the specification's words: each code in single quotes, commas between.\<close>

fun quoted_list :: "string list \<Rightarrow> string" where
  "quoted_list [] = []"
| "quoted_list [c] = CHR 0x27 # c @ [CHR 0x27]"
| "quoted_list (c # d # cs) = CHR 0x27 # c @ [CHR 0x27] @ '','' @ quoted_list (d # cs)"

text \<open>
  The timer invariant: at most one interval timer is active, and an active timer is the
  one whose handle \<open>autoRefreshTimer\<close> holds.
\<close>

definition timer_inv :: "Visual \<Rightarrow> bool" where
  "timer_inv s =
     (length (timers s) \<le> 1
      \<and> (\<forall>t \<in> set (timers s). autoRefreshTimer s = Some (fst t) \<and> fst t \<noteq> 0))"

section \<open>Properties of the Score Classifier\<close>

lemma clampedIndex_Num:
  "clampedIndex rnd (Num s) = Num (of_int (spec_bucket rnd s))"
  by (simp add: clampedIndex_def spec_bucket_def Let_def of_int_max of_int_min)

lemma spec_bucket_range: "0 \<le> spec_bucket rnd s \<and> spec_bucket rnd s \<le> 9"
  by (simp add: spec_bucket_def)

lemma array_get_int:
  "0 \<le> i \<Longrightarrow> nat i < length xs \<Longrightarrow> array_get xs (Num (of_int i)) = Some (xs ! nat i)"
  by simp

lemma length_colors: "length colors = 10"
  by (simp add: colors_def)

lemma distinct_colors: "distinct colors"
  by (simp add: colors_def)

lemma getColorByScore_Num:
  "getColorByScore rnd (Num s) = Some (colors ! nat (spec_bucket rnd s))"
proof -
  have "0 \<le> spec_bucket rnd s" and "nat (spec_bucket rnd s) < length colors"
    using spec_bucket_range [of rnd s] by (auto simp: length_colors)
  then show ?thesis
    unfolding getColorByScore_def clampedIndex_Num by (rule array_get_int)
qed

lemma clampedIndex_PosInf: "clampedIndex rnd PosInf = clampedIndex rnd (Num 1)"
  by (simp add: clampedIndex_def)

lemma clampedIndex_NegInf: "clampedIndex rnd NegInf = clampedIndex rnd (Num 0)"
  by (simp add: clampedIndex_def)

lemma clampedIndex_NaN: "clampedIndex rnd NaN = NaN"
  by (simp add: clampedIndex_def)

lemma clampedIndex_below: "s \<le> 0 \<Longrightarrow> clampedIndex rnd (Num s) = clampedIndex rnd (Num 0)"
  by (simp add: clampedIndex_def max_def min_def)

lemma clampedIndex_above: "1 \<le> s \<Longrightarrow> clampedIndex rnd (Num s) = clampedIndex rnd (Num 1)"
  by (simp add: clampedIndex_def max_def min_def)

lemma spec_bucket_mono:
  assumes "mono rnd" and "s1 \<le> s2"
  shows "spec_bucket rnd s1 \<le> spec_bucket rnd s2"
proof -
  have "max 0 (min 1 s1) * 10 \<le> max 0 (min 1 s2) * 10"
    using assms(2) by (simp add: max_def min_def)
  then have "rnd (max 0 (min 1 s1) * 10) \<le> rnd (max 0 (min 1 s2) * 10)"
    by (rule monoD [OF assms(1)])
  then have "\<lfloor>rnd (max 0 (min 1 s1) * 10)\<rfloor> \<le> \<lfloor>rnd (max 0 (min 1 s2) * 10)\<rfloor>"
    by (rule floor_mono)
  then have "min 9 \<lfloor>rnd (max 0 (min 1 s1) * 10)\<rfloor> \<le> min 9 \<lfloor>rnd (max 0 (min 1 s2) * 10)\<rfloor>"
    by (rule min.mono [OF order_refl])
  then show ?thesis
    unfolding spec_bucket_def by (rule max.mono [OF order_refl])
qed

lemma rounding_near:
  assumes "rounding rnd"
  shows "x - \<bar>x\<bar> / 2 ^ 53 \<le> rnd x" and "rnd x \<le> x + \<bar>x\<bar> / 2 ^ 53"
proof -
  have "\<bar>rnd x - x\<bar> \<le> \<bar>x\<bar> / 2 ^ 53"
    using assms by (simp add: rounding_def)
  then show "x - \<bar>x\<bar> / 2 ^ 53 \<le> rnd x" and "rnd x \<le> x + \<bar>x\<bar> / 2 ^ 53"
    by linarith+
qed

lemma rounding_id: "rounding id"
  by (simp add: rounding_def mono_def)

lemma bucket_0: "rounding rnd \<Longrightarrow> spec_bucket rnd 0 = 0"
  using rounding_near [of rnd 0] by (simp add: spec_bucket_def)

lemma floor_eqI: "of_int n \<le> (x::real) \<Longrightarrow> x < of_int n + 1 \<Longrightarrow> \<lfloor>x\<rfloor> = n"
  by linarith

lemma bucket_005:
  assumes "rounding rnd" shows "spec_bucket rnd (5 / 100) = 0"
proof -
  have "\<lfloor>rnd (1 / 2)\<rfloor> = 0"
    using rounding_near [OF assms, of "1 / 2"] by (intro floor_eqI) simp_all
  then show ?thesis by (simp add: spec_bucket_def)
qed

lemma bucket_094:
  assumes "rounding rnd" shows "spec_bucket rnd (94 / 100) = 9"
proof -
  have "\<lfloor>rnd (47 / 5)\<rfloor> = 9"
    using rounding_near [OF assms, of "47 / 5"] by (intro floor_eqI) simp_all
  then show ?thesis by (simp add: spec_bucket_def)
qed

lemma bucket_1:
  assumes "rounding rnd" shows "spec_bucket rnd 1 = 9"
proof -
  have "9 \<le> rnd 10"
    using rounding_near(1) [OF assms, of 10] by simp
  then have "9 \<le> \<lfloor>rnd 10\<rfloor>" by linarith
  then show ?thesis by (simp add: spec_bucket_def)
qed

text \<open>
  Claim C2, as the code has it. For every score but NaN the bucket index computed by
  \<open>getColorByScore\<close> is the floor of ten times the score clamped to \<open>[0, 1]\<close>
  (the product as the machine rounds it; an infinite score clamps to 1 or to 0),
  itself clamped to \<open>[0, 9]\<close>, and the colour returned is the entry of the fixed
  ten-colour array at that index. The classifier gives the same colour for -0.5 as for
  0 and for 1.5 as for 1, and with the rounding of binary64 the scores 0, 0.05, 0.94 and
  1 fall in the buckets 0, 0, 9 and 9. For NaN no colour is returned.
\<close>

theorem C2_bucket_formula:
  "clampedIndex rnd (Num s) = Num (of_int (spec_bucket rnd s))
   \<and> getColorByScore rnd (Num s) = Some (colors ! nat (spec_bucket rnd s))
   \<and> clampedIndex rnd PosInf = Num (of_int (spec_bucket rnd 1))
   \<and> getColorByScore rnd PosInf = Some (colors ! nat (spec_bucket rnd 1))
   \<and> clampedIndex rnd NegInf = Num (of_int (spec_bucket rnd 0))
   \<and> getColorByScore rnd NegInf = Some (colors ! nat (spec_bucket rnd 0))
   \<and> getColorByScore rnd NaN = None
   \<and> length colors = 10
   \<and> getColorByScore rnd (Num (- 0.5)) = getColorByScore rnd (Num 0)
   \<and> getColorByScore rnd (Num 1.5) = getColorByScore rnd (Num 1)
   \<and> getColorByScore rnd PosInf = getColorByScore rnd (Num 1)
   \<and> getColorByScore rnd NegInf = getColorByScore rnd (Num 0)
   \<and> (rounding rnd \<longrightarrow>
        map (clampedIndex rnd) [Num 0, Num 0.05, Num 0.94, Num 1]
          = [Num 0, Num 0, Num 9, Num 9])"
proof -
  have low: "getColorByScore rnd (Num (- 0.5)) = getColorByScore rnd (Num 0)"
    unfolding getColorByScore_def using clampedIndex_below [of "- 0.5" rnd] by simp
  have high: "getColorByScore rnd (Num 1.5) = getColorByScore rnd (Num 1)"
    unfolding getColorByScore_def using clampedIndex_above [of "1.5" rnd] by simp
  have inf: "getColorByScore rnd PosInf = getColorByScore rnd (Num 1)"
    "getColorByScore rnd NegInf = getColorByScore rnd (Num 0)"
    unfolding getColorByScore_def by (simp_all add: clampedIndex_PosInf clampedIndex_NegInf)
  have idx: "clampedIndex rnd PosInf = Num (of_int (spec_bucket rnd 1))"
    "clampedIndex rnd NegInf = Num (of_int (spec_bucket rnd 0))"
    by (simp_all add: clampedIndex_PosInf clampedIndex_NegInf clampedIndex_Num)
  have nan: "getColorByScore rnd NaN = None"
    by (simp add: getColorByScore_def clampedIndex_NaN)
  have buckets: "map (clampedIndex rnd) [Num 0, Num 0.05, Num 0.94, Num 1]
      = [Num 0, Num 0, Num 9, Num 9]" if "rounding rnd"
    using bucket_0 [OF that] bucket_005 [OF that] bucket_094 [OF that] bucket_1 [OF that]
    by (simp add: clampedIndex_Num)
  show ?thesis
    using low high inf idx nan buckets length_colors
    by (simp add: clampedIndex_Num getColorByScore_Num)
qed

theorem C2_bucket_formula_witness:
  "rounding id
   \<and> clampedIndex id (Num 0.94) = Num 9
   \<and> getColorByScore id (Num 0.94) = Some ''#00FF00''
   \<and> getColorByScore id (Num (- 0.5)) = Some ''#FF0000''
   \<and> map (clampedIndex id) [Num 0, Num 0.05, Num 0.94, Num 1] = [Num 0, Num 0, Num 9, Num 9]"
  using C2_bucket_formula [of id "0.94"] rounding_id
  by (simp add: getColorByScore_Num spec_bucket_def colors_def)

text \<open>
  The claim as it was stated fails at NaN: the clamp to \<open>[0, 1]\<close> leaves NaN, the
  bucket index is NaN, and no colour is returned.
\<close>

theorem C2_NaN_counterexample:
  "Math_max (Num 0) (Math_min (Num 1) NaN) = NaN
   \<and> clampedIndex id NaN = NaN
   \<and> getColorByScore id NaN = None"
  by (simp add: getColorByScore_def clampedIndex_def)

text \<open>
  Claim C7. For scores \<open>s1 \<le> s2\<close> in \<open>[0, 1]\<close> the classifier returns entries of the
  fixed array of exactly ten distinct colours, and the bucket index of \<open>s1\<close> is at most
  the bucket index of \<open>s2\<close> (the machine's rounding being monotone).
\<close>

theorem C7_ten_colors_monotone:
  assumes "mono rnd" and "0 \<le> s1" and "s1 \<le> s2" and "s2 \<le> 1"
  shows "length colors = 10 \<and> distinct colors
    \<and> (\<exists>i j. i \<le> j \<and> j < 10
          \<and> clampedIndex rnd (Num s1) = Num (of_nat i)
          \<and> clampedIndex rnd (Num s2) = Num (of_nat j)
          \<and> getColorByScore rnd (Num s1) = Some (colors ! i)
          \<and> getColorByScore rnd (Num s2) = Some (colors ! j)
          \<and> colors ! i \<in> set colors \<and> colors ! j \<in> set colors)"
proof -
  define i where "i = nat (spec_bucket rnd s1)"
  define j where "j = nat (spec_bucket rnd s2)"
  have le: "spec_bucket rnd s1 \<le> spec_bucket rnd s2"
    using assms(1,3) by (rule spec_bucket_mono)
  have ri: "0 \<le> spec_bucket rnd s1" and rj: "0 \<le> spec_bucket rnd s2" "spec_bucket rnd s2 \<le> 9"
    using spec_bucket_range [of rnd s1] spec_bucket_range [of rnd s2] by simp_all
  have ij: "i \<le> j" "j < 10"
    using le ri rj by (simp_all add: i_def j_def)
  have idx: "clampedIndex rnd (Num s1) = Num (of_nat i)" "clampedIndex rnd (Num s2) = Num (of_nat j)"
    using ri rj by (simp_all add: clampedIndex_Num i_def j_def)
  have col: "getColorByScore rnd (Num s1) = Some (colors ! i)"
    "getColorByScore rnd (Num s2) = Some (colors ! j)"
    by (simp_all add: getColorByScore_Num i_def j_def)
  have mem: "colors ! i \<in> set colors" "colors ! j \<in> set colors"
    using ij by (simp_all add: length_colors)
  show ?thesis
    using ij idx col mem length_colors distinct_colors by blast
qed

theorem C7_ten_colors_monotone_witness:
  "mono (id :: real \<Rightarrow> real) \<and> (0::real) \<le> 0.25 \<and> (0.25::real) \<le> 0.75 \<and> (0.75::real) \<le> 1
   \<and> length colors = 10 \<and> distinct colors
   \<and> (\<exists>i j. i \<le> j \<and> j < 10
          \<and> clampedIndex id (Num 0.25) = Num (of_nat i)
          \<and> clampedIndex id (Num 0.75) = Num (of_nat j)
          \<and> getColorByScore id (Num 0.25) = Some (colors ! i)
          \<and> getColorByScore id (Num 0.75) = Some (colors ! j)
          \<and> colors ! i \<in> set colors \<and> colors ! j \<in> set colors)"
proof -
  have m: "mono (id :: real \<Rightarrow> real)" by (simp add: mono_def)
  show ?thesis
    using m C7_ten_colors_monotone [OF m, of "0.25" "0.75"] by simp
qed

text \<open>
  Claim C8, as the code has it. \<open>getColorByScore\<close> raises nothing on any number.
  For every input but NaN, the infinities included, the computed index is a position
  of the ten-colour array and that colour is returned. For NaN the index is NaN and
  the result is \<open>undefined\<close>: \<open>Math.max\<close> and \<open>Math.min\<close> do not clamp NaN.
\<close>

theorem C8_valid_index_unless_NaN:
  "(score \<noteq> NaN \<longrightarrow>
      (\<exists>i. i < length colors \<and> clampedIndex rnd score = Num (of_nat i)
           \<and> getColorByScore rnd score = Some (colors ! i)))
   \<and> (score = NaN \<longrightarrow> clampedIndex rnd score = NaN \<and> getColorByScore rnd score = None)"
proof (cases score)
  case (Num s)
  have "nat (spec_bucket rnd s) < length colors"
    using spec_bucket_range [of rnd s] by (auto simp: length_colors)
  moreover have "clampedIndex rnd (Num s) = Num (of_nat (nat (spec_bucket rnd s)))"
    using spec_bucket_range [of rnd s] by (simp add: clampedIndex_Num)
  ultimately show ?thesis
    using Num getColorByScore_Num [of rnd s] by blast
next
  case PosInf
  have "nat (spec_bucket rnd 1) < length colors"
    using spec_bucket_range [of rnd 1] by (auto simp: length_colors)
  moreover have "clampedIndex rnd PosInf = Num (of_nat (nat (spec_bucket rnd 1)))"
    using spec_bucket_range [of rnd 1] by (simp add: clampedIndex_PosInf clampedIndex_Num)
  moreover have "getColorByScore rnd PosInf = Some (colors ! nat (spec_bucket rnd 1))"
    using getColorByScore_Num [of rnd 1] by (simp add: getColorByScore_def clampedIndex_PosInf)
  ultimately show ?thesis
    using PosInf by blast
next
  case NegInf
  have "nat (spec_bucket rnd 0) < length colors"
    using spec_bucket_range [of rnd 0] by (auto simp: length_colors)
  moreover have "clampedIndex rnd NegInf = Num (of_nat (nat (spec_bucket rnd 0)))"
    using spec_bucket_range [of rnd 0] by (simp add: clampedIndex_NegInf clampedIndex_Num)
  moreover have "getColorByScore rnd NegInf = Some (colors ! nat (spec_bucket rnd 0))"
    using getColorByScore_Num [of rnd 0] by (simp add: getColorByScore_def clampedIndex_NegInf)
  ultimately show ?thesis
    using NegInf by blast
next
  case NaN
  then show ?thesis
    by (simp add: getColorByScore_def clampedIndex_NaN)
qed

theorem C8_valid_index_unless_NaN_witness:
  "PosInf \<noteq> NaN \<and> clampedIndex id PosInf = Num 9
   \<and> getColorByScore id PosInf = Some ''#00FF00''
   \<and> (\<exists>i. i < length colors \<and> clampedIndex id PosInf = Num (of_nat i)
           \<and> getColorByScore id PosInf = Some (colors ! i))"
proof -
  have a: "clampedIndex id PosInf = Num 9"
    by (simp add: clampedIndex_def)
  have b: "getColorByScore id PosInf = Some ''#00FF00''"
    by (simp add: getColorByScore_def a colors_def)
  show ?thesis
    using a b C8_valid_index_unless_NaN [of PosInf id] by simp
qed

theorem C8_NaN_counterexample:
  "clampedIndex id NaN = NaN \<and> array_get colors (clampedIndex id NaN) = None
   \<and> getColorByScore id NaN = None"
  by (simp add: getColorByScore_def clampedIndex_def)

section \<open>Properties of the filter of the Boundary Layer Manager\<close>

lemma foldl_sep: "foldl (\<lambda>acc y. acc @ sep @ y) x xs = x @ concat (map (\<lambda>y. sep @ y) xs)"
  by (induction xs arbitrary: x) simp_all

lemma join_Cons: "join sep (x # xs) = x @ concat (map (\<lambda>y. sep @ y) xs)"
  by (simp add: foldl_sep)

lemma sublist_prepend: "sublist xs ys \<Longrightarrow> sublist xs (zs @ ys)"
proof -
  assume "sublist xs ys"
  then obtain ps ss where "ys = ps @ xs @ ss"
    by (auto simp: sublist_def)
  then have "zs @ ys = (zs @ ps) @ xs @ ss" by simp
  then show ?thesis unfolding sublist_def by blast
qed

lemma sublist_postpend: "sublist xs ys \<Longrightarrow> sublist xs (ys @ zs)"
proof -
  assume "sublist xs ys"
  then obtain ps ss where "ys = ps @ xs @ ss"
    by (auto simp: sublist_def)
  then have "ys @ zs = ps @ xs @ (ss @ zs)" by simp
  then show ?thesis unfolding sublist_def by blast
qed

lemma quoted_list_Cons:
  "quoted_list (c # cs) =
     (CHR 0x27 # c @ [CHR 0x27]) @ concat (map (\<lambda>d. '','' @ CHR 0x27 # d @ [CHR 0x27]) cs)"
  by (induction cs arbitrary: c) simp_all

lemma sa1s_quoted_list: "sa1s codes = quoted_list codes"
proof (cases codes)
  case Nil
  then show ?thesis by (simp add: sa1s_def)
next
  case (Cons c cs)
  then show ?thesis
    by (simp add: sa1s_def join_Cons quoted_list_Cons comp_def del: join.simps)
qed

lemma quoted_list_verbatim:
  "c \<in> set codes \<Longrightarrow> sublist (CHR 0x27 # c @ [CHR 0x27]) (quoted_list codes)"
proof (induction codes rule: quoted_list.induct)
  case 1
  then show ?case by simp
next
  case (2 d)
  then show ?case by simp
next
  case (3 d e cs)
  show ?case
  proof (cases "c = d")
    case True
    have "sublist (CHR 0x27 # d @ [CHR 0x27])
            ([] @ (CHR 0x27 # d @ [CHR 0x27]) @ ('','' @ quoted_list (e # cs)))"
      by (rule sublist_appendI)
    then show ?thesis using True by simp
  next
    case False
    then have "sublist (CHR 0x27 # c @ [CHR 0x27]) (quoted_list (e # cs))"
      using 3 by simp
    then have "sublist (CHR 0x27 # c @ [CHR 0x27])
                 ((CHR 0x27 # d @ [CHR 0x27] @ '','') @ quoted_list (e # cs))"
      by (rule sublist_prepend)
    then show ?thesis by simp
  qed
qed

lemma whereClause_verbatim:
  assumes "c \<in> set codes"
  shows "sublist (CHR 0x27 # c @ [CHR 0x27]) (whereClause codes)"
proof -
  have "sublist (CHR 0x27 # c @ [CHR 0x27]) (quoted_list codes)"
    using assms by (rule quoted_list_verbatim)
  then have "sublist (CHR 0x27 # c @ [CHR 0x27])
               (''sa1_code_2021 IN ('' @ quoted_list codes @ '')'')"
    by (intro sublist_prepend sublist_postpend)
  then show ?thesis by (simp add: whereClause_def sa1s_quoted_list)
qed

lemma saonesLayer_updateSaonesLayer:
  "saonesLayer (updateSaonesLayer s) = Some \<lparr>f_url = tims, f_where = whereClause (saones s)\<rparr>"
  by (simp add: updateSaonesLayer_def prepareGroup_def Let_def split: option.splits prod.splits)

text \<open>
  Claim C3. For every list of area codes the filter of the remote query is
  \<open>sa1_code_2021 IN (...)\<close> around the codes, each wrapped in single quotes, with
  commas between; every code stands in it verbatim between its quotes, so a quote
  inside a code is not escaped, as for the codes \<open>1\<close> and \<open>2'3\<close>. It is the filter of
  the layer that \<open>updateSaonesLayer\<close> creates.
\<close>

theorem C3_filter_string:
  "whereClause codes = ''sa1_code_2021 IN ('' @ quoted_list codes @ '')''
   \<and> (\<forall>c \<in> set codes. sublist (CHR 0x27 # c @ [CHR 0x27]) (whereClause codes))
   \<and> saonesLayer (updateSaonesLayer s)
       = Some \<lparr>f_url = tims, f_where = whereClause (saones s)\<rparr>
   \<and> whereClause [''1'', ''2'' @ [CHR 0x27] @ ''3'']
       = ''sa1_code_2021 IN ('' @ [CHR 0x27] @ ''1'' @ [CHR 0x27] @ '','' @ [CHR 0x27]
           @ ''2'' @ [CHR 0x27] @ ''3'' @ [CHR 0x27] @ '')''"
proof -
  have "whereClause [''1'', ''2'' @ [CHR 0x27] @ ''3'']
       = ''sa1_code_2021 IN ('' @ [CHR 0x27] @ ''1'' @ [CHR 0x27] @ '','' @ [CHR 0x27]
           @ ''2'' @ [CHR 0x27] @ ''3'' @ [CHR 0x27] @ '')''"
    by (simp add: whereClause_def sa1s_def)
  then show ?thesis
    using whereClause_verbatim saonesLayer_updateSaonesLayer
    by (simp add: whereClause_def sa1s_quoted_list)
qed

theorem C3_filter_string_witness:
  "whereClause [''1'', ''2'' @ [CHR 0x27] @ ''3'']
     = ''sa1_code_2021 IN ('' @ quoted_list [''1'', ''2'' @ [CHR 0x27] @ ''3''] @ '')''
   \<and> sublist ([CHR 0x27] @ ''2'' @ [CHR 0x27] @ ''3'' @ [CHR 0x27])
        (whereClause [''1'', ''2'' @ [CHR 0x27] @ ''3''])
   \<and> f_where (the (saonesLayer (updateSaonesLayer (constructor\<lparr>saones := [''1'', ''2'' @ [CHR 0x27] @ ''3'']\<rparr>))))
       = ''sa1_code_2021 IN ('' @ [CHR 0x27] @ ''1'' @ [CHR 0x27] @ '','' @ [CHR 0x27]
           @ ''2'' @ [CHR 0x27] @ ''3'' @ [CHR 0x27] @ '')''"
  using C3_filter_string [of "[''1'', ''2'' @ [CHR 0x27] @ ''3'']"
      "constructor\<lparr>saones := [''1'', ''2'' @ [CHR 0x27] @ ''3'']\<rparr>"]
  by (simp add: whereClause_def sa1s_def)

section \<open>Properties of the Refresh Scheduler\<close>

text \<open>What each operation leaves as it was.\<close>

lemma console_log_frame [simp]:
  "scoreMap (console_log msg s) = scoreMap s"
  "selectionIdMap (console_log msg s) = selectionIdMap s"
  "timers (console_log msg s) = timers s"
  "autoRefreshTimer (console_log msg s) = autoRefreshTimer s"
  "saones (console_log msg s) = saones s"
  "cands (console_log msg s) = cands s"
  "inited (console_log msg s) = inited s"
  "console (console_log msg s) = console s @ [msg]"
  by (simp_all add: console_log_def)

lemma requestAnimationFrame_frame [simp]:
  "scoreMap (requestAnimationFrame cb s) = scoreMap s"
  "selectionIdMap (requestAnimationFrame cb s) = selectionIdMap s"
  "timers (requestAnimationFrame cb s) = timers s"
  "autoRefreshTimer (requestAnimationFrame cb s) = autoRefreshTimer s"
  "saones (requestAnimationFrame cb s) = saones s"
  "cands (requestAnimationFrame cb s) = cands s"
  "inited (requestAnimationFrame cb s) = inited s"
  "console (requestAnimationFrame cb s) = console s"
  by (simp_all add: requestAnimationFrame_def)

lemma addLegend_frame [simp]:
  "scoreMap (addLegend s) = scoreMap s"
  "selectionIdMap (addLegend s) = selectionIdMap s"
  "timers (addLegend s) = timers s"
  "autoRefreshTimer (addLegend s) = autoRefreshTimer s"
  "saones (addLegend s) = saones s"
  "cands (addLegend s) = cands s"
  "inited (addLegend s) = inited s"
  "console (addLegend s) = console s"
  by (simp_all add: addLegend_def)

lemma updateLegend_frame [simp]:
  "scoreMap (updateLegend s) = scoreMap s"
  "selectionIdMap (updateLegend s) = selectionIdMap s"
  "timers (updateLegend s) = timers s"
  "autoRefreshTimer (updateLegend s) = autoRefreshTimer s"
  "saones (updateLegend s) = saones s"
  "cands (updateLegend s) = cands s"
  "inited (updateLegend s) = inited s"
  "console (updateLegend s) = console s"
  by (simp_all add: updateLegend_def)

lemma refreshAllLayers_frame [simp]:
  "scoreMap (refreshAllLayers s) = scoreMap s"
  "selectionIdMap (refreshAllLayers s) = selectionIdMap s"
  "timers (refreshAllLayers s) = timers s"
  "autoRefreshTimer (refreshAllLayers s) = autoRefreshTimer s"
  "saones (refreshAllLayers s) = saones s"
  "cands (refreshAllLayers s) = cands s"
  by (simp_all add: refreshAllLayers_def split: option.splits)

lemma prepareGroup_frame [simp]:
  "scoreMap (snd (prepareGroup s)) = scoreMap s"
  "selectionIdMap (snd (prepareGroup s)) = selectionIdMap s"
  "timers (snd (prepareGroup s)) = timers s"
  "autoRefreshTimer (snd (prepareGroup s)) = autoRefreshTimer s"
  "saones (snd (prepareGroup s)) = saones s"
  "cands (snd (prepareGroup s)) = cands s"
  "inited (snd (prepareGroup s)) = inited s"
  "console (snd (prepareGroup s)) = console s"
  by (simp_all add: prepareGroup_def Let_def split: option.splits)

lemma updateSaonesLayer_frame [simp]:
  "scoreMap (updateSaonesLayer s) = scoreMap s"
  "selectionIdMap (updateSaonesLayer s) = selectionIdMap s"
  "timers (updateSaonesLayer s) = timers s"
  "autoRefreshTimer (updateSaonesLayer s) = autoRefreshTimer s"
  "saones (updateSaonesLayer s) = saones s"
  "cands (updateSaonesLayer s) = cands s"
  "inited (updateSaonesLayer s) = inited s"
  "console (updateSaonesLayer s) = console s"
  by (simp_all add: updateSaonesLayer_def Let_def split_beta)

lemma startAutoRefresh_frame [simp]:
  "scoreMap (startAutoRefresh ms s) = scoreMap s"
  "selectionIdMap (startAutoRefresh ms s) = selectionIdMap s"
  "saones (startAutoRefresh ms s) = saones s"
  "cands (startAutoRefresh ms s) = cands s"
  by (simp_all add: startAutoRefresh_def setInterval_def clearInterval_def Let_def
      split: option.splits)

lemma storeRows_frame [simp]:
  "timers (storeRows c sc i s) = timers s"
  "autoRefreshTimer (storeRows c sc i s) = autoRefreshTimer s"
  "saones (storeRows c sc i s) = saones s"
  "cands (storeRows c sc i s) = cands s"
  "inited (storeRows c sc i s) = inited s"
  "console (storeRows c sc i s) = console s"
proof (induction c sc i s rule: storeRows.induct)
  case (1 c sc i s)
  note step = storeRows.simps [of c sc i s]
  { case 1 show ?case using "1.IH"(1) by (subst step) (simp add: Let_def) }
  { case 2 show ?case using "1.IH"(2) by (subst step) (simp add: Let_def) }
  { case 3 show ?case using "1.IH"(3) by (subst step) (simp add: Let_def) }
  { case 4 show ?case using "1.IH"(4) by (subst step) (simp add: Let_def) }
  { case 5 show ?case using "1.IH"(5) by (subst step) (simp add: Let_def) }
  { case 6 show ?case using "1.IH"(6) by (subst step) (simp add: Let_def) }
qed


subsection \<open>The timer invariant\<close>

lemma update_timers [simp]:
  "timers (snd (update options s)) = timers s"
  "autoRefreshTimer (snd (update options s)) = autoRefreshTimer s"
  by (simp_all add: update_def Let_def split: option.splits list.splits)

lemma clearInterval_inv:
  assumes "timer_inv s" and "autoRefreshTimer s = Some h"
  shows "timers (clearInterval h s) = []"
proof -
  have "\<forall>t \<in> set (timers s). fst t = h"
    using assms by (auto simp: timer_inv_def)
  then show ?thesis
    by (simp add: clearInterval_def filter_empty_conv)
qed

lemma timer_inv_empty:
  assumes "timer_inv s" and "autoRefreshTimer s = None \<or> autoRefreshTimer s = Some 0"
  shows "timers s = []"
proof (cases "timers s")
  case Nil
  then show ?thesis .
next
  case (Cons t ts)
  then have "autoRefreshTimer s = Some (fst t) \<and> fst t \<noteq> 0"
    using assms(1) by (simp add: timer_inv_def)
  then show ?thesis using assms(2) by auto
qed

text \<open>After the first statement of \<open>startAutoRefresh\<close> no timer is left.\<close>

lemma startAutoRefresh_cancels:
  assumes "timer_inv s"
  shows "timers (case autoRefreshTimer s of
                   None \<Rightarrow> s
                 | Some h \<Rightarrow> if h \<noteq> 0 then clearInterval h s else s) = []"
proof (cases "autoRefreshTimer s")
  case None
  then show ?thesis using timer_inv_empty [OF assms] by simp
next
  case (Some h)
  show ?thesis
  proof (cases "h = 0")
    case True
    then show ?thesis using Some timer_inv_empty [OF assms] by simp
  next
    case False
    then show ?thesis using Some clearInterval_inv [OF assms Some] by simp
  qed
qed

lemma handles_cancel [simp]:
  "handles (case autoRefreshTimer s of
              None \<Rightarrow> s
            | Some h \<Rightarrow> if h \<noteq> 0 then clearInterval h s else s) = handles s"
  by (simp add: clearInterval_def split: option.splits)

lemma startAutoRefresh_positive:
  assumes "timer_inv s" and "greater_zero ms"
  shows "timers (startAutoRefresh ms s) = [(Suc (handles s), ms)]"
    and "autoRefreshTimer (startAutoRefresh ms s) = Some (Suc (handles s))"
    and "handles (startAutoRefresh ms s) = Suc (handles s)"
  using assms(2) startAutoRefresh_cancels [OF assms(1)]
  by (simp_all add: startAutoRefresh_def setInterval_def Let_def)

lemma startAutoRefresh_nonpositive:
  assumes "timer_inv s" and "\<not> greater_zero ms"
  shows "timers (startAutoRefresh ms s) = []"
  using assms(2) startAutoRefresh_cancels [OF assms(1)]
  by (simp add: startAutoRefresh_def Let_def)

lemma startAutoRefresh_inv:
  assumes "timer_inv s"
  shows "timer_inv (startAutoRefresh ms s)"
proof (cases "greater_zero ms")
  case True
  then show ?thesis
    using startAutoRefresh_positive [OF assms True] by (simp add: timer_inv_def)
next
  case False
  then show ?thesis
    using startAutoRefresh_nonpositive [OF assms False] by (simp add: timer_inv_def)
qed

lemma timer_inv_cong:
  "timers s' = timers s \<Longrightarrow> autoRefreshTimer s' = autoRefreshTimer s \<Longrightarrow>
   timer_inv s' = timer_inv s"
  by (simp add: timer_inv_def)

lemma initLayersAndUI_inv:
  assumes "timer_inv s"
  shows "timer_inv (initLayersAndUI s)"
proof -
  have "timer_inv (addLegend (s\<lparr>layerControl := Some []\<rparr>))"
    using assms by (simp add: timer_inv_def)
  then have "timer_inv (startAutoRefresh (Num (6 * 60 * 60 * 1000))
      (addLegend (s\<lparr>layerControl := Some []\<rparr>)))"
    by (rule startAutoRefresh_inv)
  then show ?thesis
    by (simp add: initLayersAndUI_def Let_def timer_inv_def)
qed

lemma runCallback_inv: "timer_inv s \<Longrightarrow> timer_inv (runCallback cb s)"
  by (cases cb) (simp_all add: initLayersAndUI_inv)

lemma fold_runCallback_inv: "timer_inv s \<Longrightarrow> timer_inv (fold runCallback cbs s)"
  by (induction cbs arbitrary: s) (simp_all add: runCallback_inv)

lemma animationFrame_inv:
  assumes "timer_inv s"
  shows "timer_inv (animationFrame s)"
proof -
  have "timer_inv (s\<lparr>frames := []\<rparr>)"
    using assms by (simp add: timer_inv_def)
  then show ?thesis
    unfolding animationFrame_def by (rule fold_runCallback_inv)
qed

lemma fold_refresh_timers [simp]:
  "timers (fold (\<lambda>t. refreshAllLayers) ts s) = timers s"
  "autoRefreshTimer (fold (\<lambda>t. refreshAllLayers) ts s) = autoRefreshTimer s"
  by (induction ts arbitrary: s) simp_all

lemma step_inv:
  assumes "timer_inv s"
  shows "timer_inv (step ev s)"
proof (cases ev)
  case (Update options)
  then show ?thesis using assms by (simp add: timer_inv_def)
next
  case AnimationFrame
  then show ?thesis using assms by (simp add: animationFrame_inv)
next
  case TimerTick
  then show ?thesis using assms by (simp add: timer_inv_def)
next
  case (VisibilityChange visible)
  then show ?thesis using assms by (simp add: timer_inv_def onVisibilityRefresh_def)
qed

lemma timer_inv_constructor: "timer_inv constructor"
  by (simp add: timer_inv_def constructor_def)

lemma fold_step_inv: "timer_inv s \<Longrightarrow> timer_inv (fold step evs s)"
  by (induction evs arbitrary: s) (simp_all add: step_inv)

lemma run_inv: "timer_inv (run evs constructor)"
  unfolding run_def using timer_inv_constructor by (rule fold_step_inv)

lemma fold_startAutoRefresh_inv:
  "timer_inv s \<Longrightarrow> timer_inv (fold startAutoRefresh mss s)"
  by (induction mss arbitrary: s) (simp_all add: startAutoRefresh_inv)

text \<open>
  Claim C9. In every state the visual reaches, after any sequence of calls of
  \<open>startAutoRefresh\<close> at most one timer is active: a call cancels the timer that was
  running before it installs a new one. Two calls with positive intervals leave
  exactly one timer, the second one, whose handle \<open>autoRefreshTimer\<close> holds.
\<close>

theorem C9_at_most_one_timer:
  "length (timers (fold startAutoRefresh mss (run evs constructor))) \<le> 1
   \<and> (greater_zero ms1 \<and> greater_zero ms2 \<longrightarrow>
        (\<exists>h1 h2. h1 \<noteq> h2
           \<and> timers (startAutoRefresh ms1 (run evs constructor)) = [(h1, ms1)]
           \<and> timers (startAutoRefresh ms2 (startAutoRefresh ms1 (run evs constructor)))
               = [(h2, ms2)]
           \<and> autoRefreshTimer (startAutoRefresh ms2 (startAutoRefresh ms1 (run evs constructor)))
               = Some h2))"
proof -
  let ?s = "run evs constructor"
  have inv: "timer_inv ?s" by (rule run_inv)
  have "timer_inv (fold startAutoRefresh mss ?s)"
    using inv by (rule fold_startAutoRefresh_inv)
  then have most: "length (timers (fold startAutoRefresh mss ?s)) \<le> 1"
    by (simp add: timer_inv_def)
  have two: "\<exists>h1 h2. h1 \<noteq> h2
           \<and> timers (startAutoRefresh ms1 ?s) = [(h1, ms1)]
           \<and> timers (startAutoRefresh ms2 (startAutoRefresh ms1 ?s)) = [(h2, ms2)]
           \<and> autoRefreshTimer (startAutoRefresh ms2 (startAutoRefresh ms1 ?s)) = Some h2"
    if pos: "greater_zero ms1" "greater_zero ms2"
  proof -
    let ?s1 = "startAutoRefresh ms1 ?s"
    have inv1: "timer_inv ?s1" using inv by (rule startAutoRefresh_inv)
    have a: "timers ?s1 = [(Suc (handles ?s), ms1)]" "handles ?s1 = Suc (handles ?s)"
      using startAutoRefresh_positive [OF inv pos(1)] by simp_all
    have b: "timers (startAutoRefresh ms2 ?s1) = [(Suc (handles ?s1), ms2)]"
      "autoRefreshTimer (startAutoRefresh ms2 ?s1) = Some (Suc (handles ?s1))"
      using startAutoRefresh_positive [OF inv1 pos(2)] by simp_all
    have "Suc (handles ?s) \<noteq> Suc (handles ?s1)"
      using a(2) by simp
    then show ?thesis using a(1) b by blast
  qed
  show ?thesis using most two by blast
qed

theorem C9_at_most_one_timer_witness:
  "greater_zero (Num 1000) \<and> greater_zero (Num 2000)
   \<and> length (timers (fold startAutoRefresh [Num 1000, Num 0, Num 2000, Num 3000]
        (run [] constructor))) \<le> 1
   \<and> timers (startAutoRefresh (Num 2000) (startAutoRefresh (Num 1000) (run [] constructor)))
       = [(2, Num 2000)]
   \<and> (\<exists>h1 h2. h1 \<noteq> h2
           \<and> timers (startAutoRefresh (Num 1000) (run [] constructor)) = [(h1, Num 1000)]
           \<and> timers (startAutoRefresh (Num 2000) (startAutoRefresh (Num 1000) (run [] constructor)))
               = [(h2, Num 2000)]
           \<and> autoRefreshTimer (startAutoRefresh (Num 2000) (startAutoRefresh (Num 1000) (run [] constructor)))
               = Some h2)"
proof -
  have "timers (startAutoRefresh (Num 2000) (startAutoRefresh (Num 1000) (run [] constructor)))
       = [(2, Num 2000)]"
    by (simp add: run_def constructor_def startAutoRefresh_def setInterval_def
        clearInterval_def Let_def)
  then show ?thesis
    using C9_at_most_one_timer [of "[Num 1000, Num 0, Num 2000, Num 3000]" "[]"
        "Num 1000" "Num 2000"]
    by simp
qed

section \<open>Properties of the Data Binder\<close>

subsection \<open>The rebuilding loop\<close>

lemma keys_update [simp]: "keys (AList.update k v m) = insert k (keys m)"
  by (simp add: keys_def dom_update)

lemma keys_Nil [simp]: "keys [] = {}"
  by (simp add: keys_def)

lemma keys_map_of: "keys m = dom (map_of m)"
  by (simp add: keys_def dom_map_of_conv_image_fst)

lemma storeRows_keys:
  "keys (scoreMap (storeRows c sc i s)) = keys (scoreMap s) \<union> set (drop i (saones s))"
  "keys (selectionIdMap (storeRows c sc i s)) = keys (selectionIdMap s) \<union> set (drop i (saones s))"
proof (induction c sc i s rule: storeRows.induct)
  case (1 c sc i s)
  note step = storeRows.simps [of c sc i s]
  have split: "set (drop i (saones s)) = insert (saones s ! i) (set (drop (Suc i) (saones s)))"
    if "i < length (saones s)"
    using that by (simp flip: Cons_nth_drop_Suc)
  { case 1 show ?case using "1.IH"(1) split by (subst step) (auto simp: Let_def) }
  { case 2 show ?case using "1.IH"(2) split by (subst step) (auto simp: Let_def) }
qed

lemma map_add_rev_Cons:
  "m(k \<mapsto> v) ++ map_of (rev D) = m ++ map_of (rev ((k, v) # D))"
  by (auto simp: fun_eq_iff map_add_def split: option.splits)

text \<open>The rows from \<open>i\<close> on, as the loop reads them: code, score and selection identifier.\<close>

lemma storeRows_map_of:
  "map_of (scoreMap (storeRows c sc i s)) =
     map_of (scoreMap s) ++
       map_of (rev (drop i (zip (saones s) (map (nth_opt sc) [0..<length (saones s)]))))"
  "map_of (selectionIdMap (storeRows c sc i s)) =
     map_of (selectionIdMap s) ++
       map_of (rev (drop i (zip (saones s) (map (SelectionId c) [0..<length (saones s)]))))"
proof (induction c sc i s rule: storeRows.induct)
  case (1 c sc i s)
  note step = storeRows.simps [of c sc i s]
  let ?s' = "s\<lparr>scoreMap := AList.update (saones s ! i) (nth_opt sc i) (scoreMap s),
                selectionIdMap := AList.update (saones s ! i) (SelectionId c i) (selectionIdMap s)\<rparr>"
  let ?Z = "\<lambda>f. zip (saones s) (map f [0..<length (saones s)])"
  have split: "drop i (?Z f) = (saones s ! i, f i) # drop (Suc i) (?Z f)"
    if "i < length (saones s)" for f :: "nat \<Rightarrow> 'b"
    using that by (simp flip: Cons_nth_drop_Suc)
  have unroll: "storeRows c sc i s = storeRows c sc (Suc i) ?s'" if "i < length (saones s)"
    using that by (subst step) (simp add: Let_def)
  { case 1
    show ?case
    proof (cases "i < length (saones s)")
      case True
      have "map_of (scoreMap (storeRows c sc i s)) =
          map_of (scoreMap ?s') ++ map_of (rev (drop (Suc i) (?Z (nth_opt sc))))"
        using "1.IH"(1) [OF True refl refl refl refl] unroll [OF True] by simp
      also have "\<dots> = (map_of (scoreMap s))(saones s ! i \<mapsto> nth_opt sc i)
          ++ map_of (rev (drop (Suc i) (?Z (nth_opt sc))))"
        by (simp add: update_conv')
      also have "\<dots> = map_of (scoreMap s)
          ++ map_of (rev ((saones s ! i, nth_opt sc i) # drop (Suc i) (?Z (nth_opt sc))))"
        by (rule map_add_rev_Cons)
      also have "\<dots> = map_of (scoreMap s) ++ map_of (rev (drop i (?Z (nth_opt sc))))"
        by (simp only: split [OF True])
      finally show ?thesis .
    next
      case False
      then show ?thesis by (subst step) simp
    qed }
  { case 2
    show ?case
    proof (cases "i < length (saones s)")
      case True
      have "map_of (selectionIdMap (storeRows c sc i s)) =
          map_of (selectionIdMap ?s') ++ map_of (rev (drop (Suc i) (?Z (SelectionId c))))"
        using "1.IH"(2) [OF True refl refl refl refl] unroll [OF True] by simp
      also have "\<dots> = (map_of (selectionIdMap s))(saones s ! i \<mapsto> SelectionId c i)
          ++ map_of (rev (drop (Suc i) (?Z (SelectionId c))))"
        by (simp add: update_conv')
      also have "\<dots> = map_of (selectionIdMap s)
          ++ map_of (rev ((saones s ! i, SelectionId c i) # drop (Suc i) (?Z (SelectionId c))))"
        by (rule map_add_rev_Cons)
      also have "\<dots> = map_of (selectionIdMap s) ++ map_of (rev (drop i (?Z (SelectionId c))))"
        by (simp only: split [OF True])
      finally show ?thesis .
    next
      case False
      then show ?thesis by (subst step) simp
    qed }
qed

lemma map_nth_opt: "length sc = n \<Longrightarrow> map (nth_opt sc) [0..<n] = map Some sc"
  by (auto simp: nth_opt_def list_eq_iff_nth_eq)

text \<open>The tables after the rebuilding loop has run on cleared tables.\<close>

lemma storeRows_tables:
  assumes "scoreMap s = []" and "selectionIdMap s = []"
  shows "keys (scoreMap (storeRows c sc 0 s)) = set (saones s)"
    and "keys (selectionIdMap (storeRows c sc 0 s)) = set (saones s)"
    and "length sc = length (saones s) \<Longrightarrow>
      map_of (scoreMap (storeRows c sc 0 s)) = Map.empty (saones s [\<mapsto>] map Some sc)"
    and "map_of (selectionIdMap (storeRows c sc 0 s)) =
      Map.empty (saones s [\<mapsto>] map (SelectionId c) [0..<length (saones s)])"
  using assms
  by (simp_all add: storeRows_keys storeRows_map_of map_upds_def map_nth_opt)


subsection \<open>The shape of a data view\<close>

lemma two_categories:
  assumes "categoryColumn options 0 = Some c0" and "categoryColumn options 1 = Some c1"
  obtains dv dvs cat cs where "dataViews options = Some (dv # dvs)"
    and "categorical dv = Some cat" and "categories cat = Some (c0 # c1 # cs)"
proof -
  from assms(1) obtain dv dvs cat cats where dv: "dataViews options = Some (dv # dvs)"
    "categorical dv = Some cat" "categories cat = Some cats"
    by (auto simp: categoryColumn_def firstCategorical_def split: option.splits list.splits)
  then have "nth_opt cats 0 = Some c0" and "nth_opt cats 1 = Some c1"
    using assms by (simp_all add: categoryColumn_def firstCategorical_def)
  then have "\<exists>cs. cats = c0 # c1 # cs"
    by (cases cats; cases "tl cats") (auto simp: nth_opt_def split: if_splits)
  then show thesis using dv that by blast
qed

lemma first_score_column:
  assumes "dataViews options = Some (dv # dvs)" and "categorical dv = Some cat"
    and "scoreColumn options = Some v0"
  obtains vs where "valueColumns cat = Some (v0 # vs)"
proof -
  from assms obtain vals where v: "valueColumns cat = Some vals" "nth_opt vals 0 = Some v0"
    by (auto simp: scoreColumn_def firstCategorical_def split: option.splits)
  then have "\<exists>vs. vals = v0 # vs"
    by (cases vals) (auto simp: nth_opt_def)
  then show thesis using v that by blast
qed

lemma no_numeric_column:
  assumes "dataViews options = Some (dv # dvs)" and "categorical dv = Some cat"
    and "numericColumns options = 0"
  shows "valueColumns cat = None \<or> valueColumns cat = Some []"
  using assms
  by (auto simp: numericColumns_def firstCategorical_def split: option.splits)

subsection \<open>The Data Binder\<close>

lemma update_rebuilds:
  assumes "dataViews options = Some (dv # dvs)" and "categorical dv = Some cat"
    and "categories cat = Some (c0 # c1 # cs)" and "valueColumns cat = Some (v0 # vs)"
  shows "\<exists>base. saones base = map String (c_values c0)
           \<and> scoreMap base = [] \<and> selectionIdMap base = []
           \<and> scoreMap (snd (update options s)) = scoreMap (storeRows c0 (v_values v0) 0 base)
           \<and> selectionIdMap (snd (update options s))
               = selectionIdMap (storeRows c0 (v_values v0) 0 base)"
    and "saones (snd (update options s)) = map String (c_values c0)"
    and "cands (snd (update options s)) = c_values c1"
    and "fst (update options s) = Inr ()"
proof -
  let ?s2 = "requestAnimationFrame InvalidateSize
      (if \<not> inited s then requestAnimationFrame InitLayersAndUI (s\<lparr>inited := True\<rparr>) else s)"
  let ?base = "?s2\<lparr>cands := c_values c1, saones := map String (c_values c0),
      scoreMap := [], selectionIdMap := []\<rparr>"
  have "saones ?base = map String (c_values c0) \<and> scoreMap ?base = []
      \<and> selectionIdMap ?base = []
      \<and> scoreMap (snd (update options s)) = scoreMap (storeRows c0 (v_values v0) 0 ?base)
      \<and> selectionIdMap (snd (update options s))
          = selectionIdMap (storeRows c0 (v_values v0) 0 ?base)"
    using assms by (simp add: update_def Let_def)
  then show "\<exists>base. saones base = map String (c_values c0)
           \<and> scoreMap base = [] \<and> selectionIdMap base = []
           \<and> scoreMap (snd (update options s)) = scoreMap (storeRows c0 (v_values v0) 0 base)
           \<and> selectionIdMap (snd (update options s))
               = selectionIdMap (storeRows c0 (v_values v0) 0 base)"
    by (rule exI)
  show "saones (snd (update options s)) = map String (c_values c0)"
    using assms by (simp add: update_def Let_def)
  show "cands (snd (update options s)) = c_values c1"
    using assms by (simp add: update_def Let_def)
  show "fst (update options s) = Inr ()"
    using assms by (simp add: update_def Let_def)
qed

text \<open>
  Claim C4. When the data view has its two category columns and a numeric column with
  a score for every row, after \<open>update\<close> the Score Table is exactly the map from each
  row's area code to its score, and the Selection Table has exactly the area codes as
  keys, each with the selection identifier of its row. Neither depends on the tables
  before the call: a key of the earlier tables that is not a code of the batch is gone.
\<close>

theorem C4_tables_rebuilt:
  assumes "categoryColumn options 0 = Some c0" and "categoryColumn options 1 = Some c1"
    and "scoreColumn options = Some v0"
    and "length (v_values v0) = length (c_values c0)"
  shows "map_of (scoreMap (snd (update options s)))
           = Map.empty (map String (c_values c0) [\<mapsto>] map Some (v_values v0))
    \<and> keys (scoreMap (snd (update options s))) = set (map String (c_values c0))
    \<and> keys (selectionIdMap (snd (update options s))) = set (map String (c_values c0))
    \<and> map_of (selectionIdMap (snd (update options s)))
           = Map.empty (map String (c_values c0)
               [\<mapsto>] map (SelectionId c0) [0..<length (c_values c0)])
    \<and> keys (scoreMap (snd (update options s)))
         \<inter> (keys (scoreMap s) - set (map String (c_values c0))) = {}
    \<and> keys (selectionIdMap (snd (update options s)))
         \<inter> (keys (selectionIdMap s) - set (map String (c_values c0))) = {}"
proof -
  obtain dv dvs cat cs where dv: "dataViews options = Some (dv # dvs)"
    "categorical dv = Some cat" "categories cat = Some (c0 # c1 # cs)"
    using assms(1,2) by (rule two_categories)
  obtain vs where vs: "valueColumns cat = Some (v0 # vs)"
    using dv(1,2) assms(3) by (rule first_score_column)
  obtain base where base: "saones base = map String (c_values c0)"
    "scoreMap base = []" "selectionIdMap base = []"
    "scoreMap (snd (update options s)) = scoreMap (storeRows c0 (v_values v0) 0 base)"
    "selectionIdMap (snd (update options s))
       = selectionIdMap (storeRows c0 (v_values v0) 0 base)"
    using update_rebuilds(1) [OF dv vs, of s] by blast
  have len: "length (v_values v0) = length (saones base)"
    using assms(4) base(1) by simp
  have "map_of (scoreMap (snd (update options s)))
      = Map.empty (map String (c_values c0) [\<mapsto>] map Some (v_values v0))"
    using storeRows_tables(3) [OF base(2,3) len, of c0] base(1,4) by simp
  moreover have k1: "keys (scoreMap (snd (update options s))) = set (map String (c_values c0))"
    using storeRows_tables(1) [OF base(2,3), of c0 "v_values v0"] base(1,4) by simp
  moreover have k2: "keys (selectionIdMap (snd (update options s)))
      = set (map String (c_values c0))"
    using storeRows_tables(2) [OF base(2,3), of c0 "v_values v0"] base(1,5) by simp
  moreover have "map_of (selectionIdMap (snd (update options s)))
      = Map.empty (map String (c_values c0)
          [\<mapsto>] map (SelectionId c0) [0..<length (c_values c0)])"
    using storeRows_tables(4) [OF base(2,3), of c0 "v_values v0"] base(1,5) by simp
  moreover have "keys (scoreMap (snd (update options s)))
         \<inter> (keys (scoreMap s) - set (map String (c_values c0))) = {}"
    unfolding k1 by blast
  moreover have "keys (selectionIdMap (snd (update options s)))
         \<inter> (keys (selectionIdMap s) - set (map String (c_values c0))) = {}"
    unfolding k2 by blast
  ultimately show ?thesis by blast
qed

theorem C4_tables_rebuilt_witness:
  "categoryColumn (batch [(''A'', ''cand'', 0.2), (''B'', ''cand'', 0.8)]) 0
     = Some \<lparr>c_source = ''sa1'', c_values = [PString ''A'', PString ''B'']\<rparr>
   \<and> categoryColumn (batch [(''A'', ''cand'', 0.2), (''B'', ''cand'', 0.8)]) 1
     = Some \<lparr>c_source = ''cand'', c_values = [PString ''cand'', PString ''cand'']\<rparr>
   \<and> scoreColumn (batch [(''A'', ''cand'', 0.2), (''B'', ''cand'', 0.8)])
     = Some \<lparr>v_source = ''score'', v_values = [Num 0.2, Num 0.8]\<rparr>
   \<and> keys (scoreMap (snd (update (batch [(''C'', ''cand'', 0.5), (''D'', ''cand'', 0.6)])
         constructor))) = {''C'', ''D''}
   \<and> scoreMap (snd (update (batch [(''A'', ''cand'', 0.2), (''B'', ''cand'', 0.8)])
         (snd (update (batch [(''C'', ''cand'', 0.5), (''D'', ''cand'', 0.6)]) constructor))))
       = [(''A'', Some (Num 0.2)), (''B'', Some (Num 0.8))]
   \<and> map_of (scoreMap (snd (update (batch [(''A'', ''cand'', 0.2), (''B'', ''cand'', 0.8)])
         (snd (update (batch [(''C'', ''cand'', 0.5), (''D'', ''cand'', 0.6)]) constructor)))))
       = [''A'' \<mapsto> Some (Num 0.2), ''B'' \<mapsto> Some (Num 0.8)]
   \<and> keys (scoreMap (snd (update (batch [(''A'', ''cand'', 0.2), (''B'', ''cand'', 0.8)])
         (snd (update (batch [(''C'', ''cand'', 0.5), (''D'', ''cand'', 0.6)]) constructor)))))
       = {''A'', ''B''}
   \<and> keys (selectionIdMap (snd (update (batch [(''A'', ''cand'', 0.2), (''B'', ''cand'', 0.8)])
         (snd (update (batch [(''C'', ''cand'', 0.5), (''D'', ''cand'', 0.6)]) constructor)))))
       = {''A'', ''B''}"
proof -
  let ?o = "batch [(''A'', ''cand'', 0.2), (''B'', ''cand'', 0.8)]"
  let ?s = "snd (update (batch [(''C'', ''cand'', 0.5), (''D'', ''cand'', 0.6)]) constructor)"
  let ?c0 = "\<lparr>c_source = ''sa1'', c_values = [PString ''A'', PString ''B'']\<rparr>"
  let ?c1 = "\<lparr>c_source = ''cand'', c_values = [PString ''cand'', PString ''cand'']\<rparr>"
  let ?v0 = "\<lparr>v_source = ''score'', v_values = [Num 0.2, Num 0.8]\<rparr>"
  have h: "categoryColumn ?o 0 = Some ?c0" "categoryColumn ?o 1 = Some ?c1"
    "scoreColumn ?o = Some ?v0"
    by (simp_all add: batch_def categoryColumn_def scoreColumn_def firstCategorical_def
        nth_opt_def)
  have len: "length (v_values ?v0) = length (c_values ?c0)" by simp
  have before: "keys (scoreMap ?s) = {''C'', ''D''}" by code_simp
  have after: "scoreMap (snd (update ?o ?s)) = [(''A'', Some (Num 0.2)), (''B'', Some (Num 0.8))]"
    by code_simp
  show ?thesis
    using C4_tables_rebuilt [OF h len, of ?s] h before after by simp
qed

subsection \<open>Updates that do not rebuild the tables\<close>

lemma update_retains:
  assumes "categoricalColumns options < 2 \<or> numericColumns options = 0"
  shows "scoreMap (snd (update options s)) = scoreMap s"
    and "selectionIdMap (snd (update options s)) = selectionIdMap s"
  using assms
  by (auto simp: update_def Let_def categoricalColumns_def numericColumns_def
      firstCategorical_def split: option.splits list.splits)

lemma update_no_data:
  assumes "firstCategorical options = None"
  shows "fst (update options s) = Inr ()"
    and "console (snd (update options s)) = console s @ [''No data'']"
    and "saones (snd (update options s)) = saones s"
    and "cands (snd (update options s)) = cands s"
  using assms
  by (auto simp: update_def Let_def firstCategorical_def split: option.splits list.splits)

lemma update_not_enough:
  assumes "firstCategorical options \<noteq> None" and "categoricalColumns options = 0"
  shows "fst (update options s) = Inr ()"
    and "console (snd (update options s)) = console s @ [''Not enough categories'']"
    and "saones (snd (update options s)) = saones s"
    and "cands (snd (update options s)) = cands s"
  using assms
  by (auto simp: update_def Let_def firstCategorical_def categoricalColumns_def
      split: option.splits list.splits)

lemma update_one_category:
  assumes "categoricalColumns options = 1"
  shows "fst (update options s) = Inl TypeError"
    and "console (snd (update options s)) = console s"
    and "saones (snd (update options s)) = saones s"
    and "cands (snd (update options s)) = cands s"
  using assms
  by (auto simp: update_def Let_def firstCategorical_def categoricalColumns_def
      split: option.splits list.splits)

lemma update_no_scores:
  assumes "dataViews options = Some (dv # dvs)" and "categorical dv = Some cat"
    and "categories cat = Some (c0 # c1 # cs)"
    and "valueColumns cat = None \<or> valueColumns cat = Some []"
  shows "fst (update options s) = Inr ()"
    and "console (snd (update options s)) = console s"
    and "saones (snd (update options s)) = map String (c_values c0)"
    and "cands (snd (update options s)) = c_values c1"
    and "scoreMap (snd (update options s)) = scoreMap s"
    and "selectionIdMap (snd (update options s)) = selectionIdMap s"
  using assms by (auto simp: update_def Let_def)

text \<open>Refresh requests: one by each call of \<open>updateSaonesLayer\<close>.\<close>

lemma refreshes_frame [simp]:
  "refreshes (console_log msg s) = refreshes s"
  "refreshes (requestAnimationFrame cb s) = refreshes s"
  "refreshes (updateLegend s) = refreshes s"
  "refreshes (updateSaonesLayer s) = Suc (refreshes s)"
  by (simp_all add: console_log_def requestAnimationFrame_def updateLegend_def addLegend_def
      updateSaonesLayer_def Let_def split_beta prepareGroup_def split: option.splits)

lemma update_no_category_refreshes:
  assumes "categoricalColumns options = 0"
  shows "refreshes (snd (update options s)) = refreshes s"
  using assms
  by (auto simp: update_def Let_def firstCategorical_def categoricalColumns_def
      split: option.splits list.splits)

lemma update_no_scores_refreshes:
  assumes "dataViews options = Some (dv # dvs)" and "categorical dv = Some cat"
    and "categories cat = Some (c0 # c1 # cs)"
    and "valueColumns cat = None \<or> valueColumns cat = Some []"
  shows "refreshes (snd (update options s))
    = (if c_values c0 = [] then refreshes s else Suc (refreshes s))"
  using assms by (auto simp: update_def Let_def)

lemma no_category_column:
  "firstCategorical options = None \<Longrightarrow> categoricalColumns options = 0"
  by (simp add: categoricalColumns_def)

lemma at_least_two_categories:
  assumes "2 \<le> categoricalColumns options"
  obtains c0 c1 where "categoryColumn options 0 = Some c0"
    and "categoryColumn options 1 = Some c1"
proof -
  from assms obtain cat cats where c: "firstCategorical options = Some cat"
    "categories cat = Some cats" "2 \<le> length cats"
    by (auto simp: categoricalColumns_def split: option.splits)
  then have "categoryColumn options 0 = Some (cats ! 0)"
    and "categoryColumn options 1 = Some (cats ! 1)"
    by (auto simp: categoryColumn_def nth_opt_def)
  then show thesis by (rule that)
qed

lemma two_categories_count:
  assumes "categoryColumn options 1 = Some c1"
  shows "2 \<le> categoricalColumns options"
  using assms
  by (auto simp: categoryColumn_def categoricalColumns_def nth_opt_def
      split: option.splits if_splits)

text \<open>
  Claim C1, as the code has it. When the data view supplies fewer than two categorical
  columns or no numeric column, \<open>update\<close> leaves \<open>scoreMap\<close> and \<open>selectionIdMap\<close> with
  exactly the entries they had. When there is no category column at all it logs a
  message, \<open>No data\<close> without a data view or its categorical part and
  \<open>Not enough categories\<close> otherwise, leaves \<open>saones\<close> and \<open>cands\<close> alone and
  requests no refresh. With two or more category columns and no numeric column it logs
  nothing, replaces \<open>saones\<close> and \<open>cands\<close> by the codes and labels of the batch, and
  refreshes the boundary layer when the batch has a row. What is reported with exactly
  one category column is left open.
\<close>

theorem C1_tables_retained:
  assumes "categoricalColumns options < 2 \<or> numericColumns options = 0"
  shows "scoreMap (snd (update options s)) = scoreMap s
    \<and> selectionIdMap (snd (update options s)) = selectionIdMap s
    \<and> (firstCategorical options = None \<longrightarrow>
          fst (update options s) = Inr ()
          \<and> console (snd (update options s)) = console s @ [''No data'']
          \<and> saones (snd (update options s)) = saones s
          \<and> cands (snd (update options s)) = cands s
          \<and> refreshes (snd (update options s)) = refreshes s)
    \<and> (firstCategorical options \<noteq> None \<and> categoricalColumns options = 0 \<longrightarrow>
          fst (update options s) = Inr ()
          \<and> console (snd (update options s)) = console s @ [''Not enough categories'']
          \<and> saones (snd (update options s)) = saones s
          \<and> cands (snd (update options s)) = cands s
          \<and> refreshes (snd (update options s)) = refreshes s)
    \<and> (2 \<le> categoricalColumns options \<longrightarrow>
          fst (update options s) = Inr ()
          \<and> console (snd (update options s)) = console s
          \<and> (\<exists>c0 c1. categoryColumn options 0 = Some c0
                \<and> categoryColumn options 1 = Some c1
                \<and> saones (snd (update options s)) = map String (c_values c0)
                \<and> cands (snd (update options s)) = c_values c1
                \<and> refreshes (snd (update options s))
                    = (if c_values c0 = [] then refreshes s else Suc (refreshes s))))"
proof -
  have two: "fst (update options s) = Inr ()
          \<and> console (snd (update options s)) = console s
          \<and> (\<exists>c0 c1. categoryColumn options 0 = Some c0
                \<and> categoryColumn options 1 = Some c1
                \<and> saones (snd (update options s)) = map String (c_values c0)
                \<and> cands (snd (update options s)) = c_values c1
                \<and> refreshes (snd (update options s))
                    = (if c_values c0 = [] then refreshes s else Suc (refreshes s)))"
    if ge: "2 \<le> categoricalColumns options"
  proof -
    obtain c0 c1 where c: "categoryColumn options 0 = Some c0"
      "categoryColumn options 1 = Some c1"
      using ge by (rule at_least_two_categories)
    obtain dv dvs cat cs where dv: "dataViews options = Some (dv # dvs)"
      "categorical dv = Some cat" "categories cat = Some (c0 # c1 # cs)"
      using c by (rule two_categories)
    have "numericColumns options = 0"
      using assms ge by simp
    then have none: "valueColumns cat = None \<or> valueColumns cat = Some []"
      using dv(1,2) by (intro no_numeric_column)
    from update_no_scores(1-4) [OF dv none, of s] update_no_scores_refreshes [OF dv none, of s] c
    show ?thesis by blast
  qed
  have nodata: "refreshes (snd (update options s)) = refreshes s"
    if "firstCategorical options = None"
    using that by (intro update_no_category_refreshes no_category_column)
  show ?thesis
    using update_retains [OF assms, of s] update_no_data [of options s]
      update_not_enough [of options s] update_no_category_refreshes [of options s] nodata two
    by blast
qed

theorem C1_tables_retained_witness:
  "numericColumns
     \<lparr>dataViews = Some [\<lparr>categorical = Some
        \<lparr>categories = Some [\<lparr>c_source = ''sa1'', c_values = [PString ''C'']\<rparr>,
                            \<lparr>c_source = ''cand'', c_values = [PString ''x'']\<rparr>],
         valueColumns = None\<rparr>\<rparr>]\<rparr> = 0
   \<and> scoreMap (snd (update
        \<lparr>dataViews = Some [\<lparr>categorical = Some
          \<lparr>categories = Some [\<lparr>c_source = ''sa1'', c_values = [PString ''C'']\<rparr>,
                              \<lparr>c_source = ''cand'', c_values = [PString ''x'']\<rparr>],
           valueColumns = None\<rparr>\<rparr>]\<rparr>
        (snd (update (batch [(''A'', ''cand'', 0.2)]) constructor))))
      = [(''A'', Some (Num 0.2))]
   \<and> console (snd (update
        \<lparr>dataViews = Some [\<lparr>categorical = Some
          \<lparr>categories = Some [\<lparr>c_source = ''sa1'', c_values = [PString ''C'']\<rparr>,
                              \<lparr>c_source = ''cand'', c_values = [PString ''x'']\<rparr>],
           valueColumns = None\<rparr>\<rparr>]\<rparr>
        (snd (update (batch [(''A'', ''cand'', 0.2)]) constructor))))
      = console (snd (update (batch [(''A'', ''cand'', 0.2)]) constructor))"
proof -
  let ?o = "\<lparr>dataViews = Some [\<lparr>categorical = Some
        \<lparr>categories = Some [\<lparr>c_source = ''sa1'', c_values = [PString ''C'']\<rparr>,
                            \<lparr>c_source = ''cand'', c_values = [PString ''x'']\<rparr>],
         valueColumns = None\<rparr>\<rparr>]\<rparr>"
  let ?s = "snd (update (batch [(''A'', ''cand'', 0.2)]) constructor)"
  have n: "numericColumns ?o = 0" by code_simp
  have c: "2 \<le> categoricalColumns ?o" by code_simp
  have t: "scoreMap ?s = [(''A'', Some (Num 0.2))]" by code_simp
  show ?thesis
    using C1_tables_retained [of ?o ?s] n c t by simp
qed

theorem C1_no_scores_counterexample:
  "(categoricalColumns
      \<lparr>dataViews = Some [\<lparr>categorical = Some
        \<lparr>categories = Some [\<lparr>c_source = ''sa1'', c_values = [PString ''C'']\<rparr>,
                            \<lparr>c_source = ''cand'', c_values = [PString ''x'']\<rparr>],
         valueColumns = None\<rparr>\<rparr>]\<rparr> < 2
    \<or> numericColumns
      \<lparr>dataViews = Some [\<lparr>categorical = Some
        \<lparr>categories = Some [\<lparr>c_source = ''sa1'', c_values = [PString ''C'']\<rparr>,
                            \<lparr>c_source = ''cand'', c_values = [PString ''x'']\<rparr>],
         valueColumns = None\<rparr>\<rparr>]\<rparr> = 0)
   \<and> console (snd (update
        \<lparr>dataViews = Some [\<lparr>categorical = Some
          \<lparr>categories = Some [\<lparr>c_source = ''sa1'', c_values = [PString ''C'']\<rparr>,
                              \<lparr>c_source = ''cand'', c_values = [PString ''x'']\<rparr>],
           valueColumns = None\<rparr>\<rparr>]\<rparr> constructor)) = []
   \<and> saones constructor = []
   \<and> saones (snd (update
        \<lparr>dataViews = Some [\<lparr>categorical = Some
          \<lparr>categories = Some [\<lparr>c_source = ''sa1'', c_values = [PString ''C'']\<rparr>,
                              \<lparr>c_source = ''cand'', c_values = [PString ''x'']\<rparr>],
           valueColumns = None\<rparr>\<rparr>]\<rparr> constructor)) = [''C'']
   \<and> refreshes constructor = 0
   \<and> refreshes (snd (update
        \<lparr>dataViews = Some [\<lparr>categorical = Some
          \<lparr>categories = Some [\<lparr>c_source = ''sa1'', c_values = [PString ''C'']\<rparr>,
                              \<lparr>c_source = ''cand'', c_values = [PString ''x'']\<rparr>],
           valueColumns = None\<rparr>\<rparr>]\<rparr> constructor)) = 1"
  by code_simp

text \<open>
  With the first two category columns and no numeric column, \<open>update\<close> replaces
  \<open>saones\<close> and \<open>cands\<close> by the codes and labels of the new batch while \<open>scoreMap\<close>
  and \<open>selectionIdMap\<close> keep their entries: the code list and the tables can then
  describe different batches, as in the example that follows.
\<close>

lemma update_codes_replaced_tables_kept:
  assumes "categoryColumn options 0 = Some c0" and "categoryColumn options 1 = Some c1"
    and "numericColumns options = 0"
  shows "fst (update options s) = Inr ()
    \<and> saones (snd (update options s)) = map String (c_values c0)
    \<and> cands (snd (update options s)) = c_values c1
    \<and> scoreMap (snd (update options s)) = scoreMap s
    \<and> selectionIdMap (snd (update options s)) = selectionIdMap s"
proof -
  obtain dv dvs cat cs where dv: "dataViews options = Some (dv # dvs)"
    "categorical dv = Some cat" "categories cat = Some (c0 # c1 # cs)"
    using assms(1,2) by (rule two_categories)
  have "valueColumns cat = None \<or> valueColumns cat = Some []"
    using dv(1,2) assms(3) by (rule no_numeric_column)
  from update_no_scores [OF dv this, of s] show ?thesis by blast
qed

lemma update_codes_replaced_tables_kept_example:
  "categoryColumn
     \<lparr>dataViews = Some [\<lparr>categorical = Some
        \<lparr>categories = Some [\<lparr>c_source = ''sa1'', c_values = [PString ''C'', PString ''D'']\<rparr>,
                            \<lparr>c_source = ''cand'', c_values = [PString ''x'', PString ''y'']\<rparr>],
         valueColumns = Some []\<rparr>\<rparr>]\<rparr> 0
     = Some \<lparr>c_source = ''sa1'', c_values = [PString ''C'', PString ''D'']\<rparr>
   \<and> categoryColumn
     \<lparr>dataViews = Some [\<lparr>categorical = Some
        \<lparr>categories = Some [\<lparr>c_source = ''sa1'', c_values = [PString ''C'', PString ''D'']\<rparr>,
                            \<lparr>c_source = ''cand'', c_values = [PString ''x'', PString ''y'']\<rparr>],
         valueColumns = Some []\<rparr>\<rparr>]\<rparr> 1
     = Some \<lparr>c_source = ''cand'', c_values = [PString ''x'', PString ''y'']\<rparr>
   \<and> numericColumns
     \<lparr>dataViews = Some [\<lparr>categorical = Some
        \<lparr>categories = Some [\<lparr>c_source = ''sa1'', c_values = [PString ''C'', PString ''D'']\<rparr>,
                            \<lparr>c_source = ''cand'', c_values = [PString ''x'', PString ''y'']\<rparr>],
         valueColumns = Some []\<rparr>\<rparr>]\<rparr> = 0
   \<and> saones (snd (update
     \<lparr>dataViews = Some [\<lparr>categorical = Some
        \<lparr>categories = Some [\<lparr>c_source = ''sa1'', c_values = [PString ''C'', PString ''D'']\<rparr>,
                            \<lparr>c_source = ''cand'', c_values = [PString ''x'', PString ''y'']\<rparr>],
         valueColumns = Some []\<rparr>\<rparr>]\<rparr>
       (snd (update (batch [(''A'', ''cand'', 0.2), (''B'', ''cand'', 0.8)]) constructor))))
     = [''C'', ''D'']
   \<and> scoreMap (snd (update
     \<lparr>dataViews = Some [\<lparr>categorical = Some
        \<lparr>categories = Some [\<lparr>c_source = ''sa1'', c_values = [PString ''C'', PString ''D'']\<rparr>,
                            \<lparr>c_source = ''cand'', c_values = [PString ''x'', PString ''y'']\<rparr>],
         valueColumns = Some []\<rparr>\<rparr>]\<rparr>
       (snd (update (batch [(''A'', ''cand'', 0.2), (''B'', ''cand'', 0.8)]) constructor))))
     = [(''A'', Some (Num 0.2)), (''B'', Some (Num 0.8))]"
proof -
  let ?o = "\<lparr>dataViews = Some [\<lparr>categorical = Some
        \<lparr>categories = Some [\<lparr>c_source = ''sa1'', c_values = [PString ''C'', PString ''D'']\<rparr>,
                            \<lparr>c_source = ''cand'', c_values = [PString ''x'', PString ''y'']\<rparr>],
         valueColumns = Some []\<rparr>\<rparr>]\<rparr>"
  let ?s = "snd (update (batch [(''A'', ''cand'', 0.2), (''B'', ''cand'', 0.8)]) constructor)"
  let ?c0 = "\<lparr>c_source = ''sa1'', c_values = [PString ''C'', PString ''D'']\<rparr>"
  let ?c1 = "\<lparr>c_source = ''cand'', c_values = [PString ''x'', PString ''y'']\<rparr>"
  have h: "categoryColumn ?o 0 = Some ?c0" "categoryColumn ?o 1 = Some ?c1"
    "numericColumns ?o = 0"
    by (simp_all add: categoryColumn_def numericColumns_def firstCategorical_def nth_opt_def)
  have before: "scoreMap ?s = [(''A'', Some (Num 0.2)), (''B'', Some (Num 0.8))]"
    by code_simp
  show ?thesis
    using update_codes_replaced_tables_kept [OF h, of ?s] h before by simp
qed

text \<open>
  Claim C10. A data view with its first category column and no numeric column is to
  have \<open>saones\<close> and \<open>cands\<close> replaced while the tables keep their entries. With
  exactly one category column the code does not do so: the guard
  \<open>categories.length < 1\<close> lets the call through, \<open>categories[1].values\<close> raises a
  TypeError before either field is assigned, and nothing is logged. On the fresh visual
  and the single column with the code \<open>C\<close>, \<open>saones\<close> stays empty.
\<close>

theorem C10_one_category_TypeError:
  "categoryColumn
     \<lparr>dataViews = Some [\<lparr>categorical = Some
        \<lparr>categories = Some [\<lparr>c_source = ''sa1'', c_values = [PString ''C'']\<rparr>],
         valueColumns = None\<rparr>\<rparr>]\<rparr> 0
     = Some \<lparr>c_source = ''sa1'', c_values = [PString ''C'']\<rparr>
   \<and> categoricalColumns
     \<lparr>dataViews = Some [\<lparr>categorical = Some
        \<lparr>categories = Some [\<lparr>c_source = ''sa1'', c_values = [PString ''C'']\<rparr>],
         valueColumns = None\<rparr>\<rparr>]\<rparr> = 1
   \<and> numericColumns
     \<lparr>dataViews = Some [\<lparr>categorical = Some
        \<lparr>categories = Some [\<lparr>c_source = ''sa1'', c_values = [PString ''C'']\<rparr>],
         valueColumns = None\<rparr>\<rparr>]\<rparr> = 0
   \<and> fst (update
     \<lparr>dataViews = Some [\<lparr>categorical = Some
        \<lparr>categories = Some [\<lparr>c_source = ''sa1'', c_values = [PString ''C'']\<rparr>],
         valueColumns = None\<rparr>\<rparr>]\<rparr> constructor) = Inl TypeError
   \<and> saones (snd (update
     \<lparr>dataViews = Some [\<lparr>categorical = Some
        \<lparr>categories = Some [\<lparr>c_source = ''sa1'', c_values = [PString ''C'']\<rparr>],
         valueColumns = None\<rparr>\<rparr>]\<rparr> constructor)) = []
   \<and> cands (snd (update
     \<lparr>dataViews = Some [\<lparr>categorical = Some
        \<lparr>categories = Some [\<lparr>c_source = ''sa1'', c_values = [PString ''C'']\<rparr>],
         valueColumns = None\<rparr>\<rparr>]\<rparr> constructor)) = []
   \<and> console (snd (update
     \<lparr>dataViews = Some [\<lparr>categorical = Some
        \<lparr>categories = Some [\<lparr>c_source = ''sa1'', c_values = [PString ''C'']\<rparr>],
         valueColumns = None\<rparr>\<rparr>]\<rparr> constructor)) = []
   \<and> map String (c_values \<lparr>c_source = ''sa1'', c_values = [PString ''C'']\<rparr>) = [''C'']"
  by code_simp

subsection \<open>The two tables have the same keys\<close>

lemma update_tables_cases:
  "(scoreMap (snd (update options s)) = scoreMap s
      \<and> selectionIdMap (snd (update options s)) = selectionIdMap s)
   \<or> (keys (scoreMap (snd (update options s))) = set (saones (snd (update options s)))
      \<and> keys (selectionIdMap (snd (update options s))) = set (saones (snd (update options s))))"
  by (auto simp: update_def Let_def storeRows_keys split: option.splits list.splits)

lemma update_same_keys:
  assumes "keys (selectionIdMap s) = keys (scoreMap s)"
  shows "keys (selectionIdMap (snd (update options s))) = keys (scoreMap (snd (update options s)))"
  using assms update_tables_cases [of options s] by auto

lemma initLayersAndUI_tables [simp]:
  "scoreMap (initLayersAndUI s) = scoreMap s"
  "selectionIdMap (initLayersAndUI s) = selectionIdMap s"
  by (simp_all add: initLayersAndUI_def Let_def)

lemma runCallback_tables [simp]:
  "scoreMap (runCallback cb s) = scoreMap s"
  "selectionIdMap (runCallback cb s) = selectionIdMap s"
  by (cases cb; simp)+

lemma fold_runCallback_tables [simp]:
  "scoreMap (fold runCallback cbs s) = scoreMap s"
  "selectionIdMap (fold runCallback cbs s) = selectionIdMap s"
  by (induction cbs arbitrary: s) simp_all

lemma fold_refresh_tables [simp]:
  "scoreMap (fold (\<lambda>t. refreshAllLayers) ts s) = scoreMap s"
  "selectionIdMap (fold (\<lambda>t. refreshAllLayers) ts s) = selectionIdMap s"
  by (induction ts arbitrary: s) simp_all

lemma step_same_keys:
  assumes "keys (selectionIdMap s) = keys (scoreMap s)"
  shows "keys (selectionIdMap (step ev s)) = keys (scoreMap (step ev s))"
proof (cases ev)
  case (Update options)
  then show ?thesis using update_same_keys [OF assms] by simp
next
  case AnimationFrame
  then show ?thesis using assms by (simp add: animationFrame_def)
next
  case TimerTick
  then show ?thesis using assms by simp
next
  case (VisibilityChange visible)
  then show ?thesis using assms by (simp add: onVisibilityRefresh_def)
qed

lemma fold_step_same_keys:
  "keys (selectionIdMap s) = keys (scoreMap s) \<Longrightarrow>
   keys (selectionIdMap (fold step evs s)) = keys (scoreMap (fold step evs s))"
  by (induction evs arbitrary: s) (simp_all add: step_same_keys)

text \<open>
  Claim C5. After every \<open>update\<close> call the Selection Table has exactly the keys of the
  Score Table: the two are equal in every state the visual reaches from its
  construction, and \<open>update\<close> and every other event preserve the equality.
\<close>

theorem C5_same_key_set:
  "keys (selectionIdMap (run evs constructor)) = keys (scoreMap (run evs constructor))
   \<and> (keys (selectionIdMap s) = keys (scoreMap s) \<longrightarrow>
        keys (selectionIdMap (snd (update options s))) = keys (scoreMap (snd (update options s)))
        \<and> keys (selectionIdMap (step ev s)) = keys (scoreMap (step ev s)))"
proof -
  have "keys (selectionIdMap constructor) = keys (scoreMap constructor)"
    by (simp add: constructor_def)
  then have "keys (selectionIdMap (run evs constructor)) = keys (scoreMap (run evs constructor))"
    unfolding run_def by (rule fold_step_same_keys)
  then show ?thesis
    using update_same_keys step_same_keys by blast
qed

theorem C5_same_key_set_witness:
  "keys (selectionIdMap constructor) = keys (scoreMap constructor)
   \<and> keys (scoreMap (snd (update (batch [(''A'', ''cand'', 0.2), (''B'', ''cand'', 0.8)])
        constructor))) = {''A'', ''B''}
   \<and> keys (selectionIdMap (snd (update (batch [(''A'', ''cand'', 0.2), (''B'', ''cand'', 0.8)])
        constructor))) = {''A'', ''B''}
   \<and> keys (selectionIdMap (run [Update (batch [(''A'', ''cand'', 0.2)]), AnimationFrame,
        Update \<lparr>dataViews = None\<rparr>, TimerTick] constructor))
     = keys (scoreMap (run [Update (batch [(''A'', ''cand'', 0.2)]), AnimationFrame,
        Update \<lparr>dataViews = None\<rparr>, TimerTick] constructor))"
proof -
  have a: "keys (selectionIdMap constructor) = keys (scoreMap constructor)"
    by (simp add: constructor_def)
  have b: "keys (scoreMap (snd (update (batch [(''A'', ''cand'', 0.2), (''B'', ''cand'', 0.8)])
        constructor))) = {''A'', ''B''}"
    by code_simp
  show ?thesis
    using a b C5_same_key_set [of "[Update (batch [(''A'', ''cand'', 0.2)]), AnimationFrame,
        Update \<lparr>dataViews = None\<rparr>, TimerTick]" constructor
        "batch [(''A'', ''cand'', 0.2), (''B'', ''cand'', 0.8)]" AnimationFrame]
    by simp
qed

section \<open>Properties of the layer group of the Boundary Layer Manager\<close>

lemma updateSaonesLayer_creates:
  assumes "fglayer s = None"
  shows "fglayer (updateSaonesLayer s) = Some (length (featureGroups s))"
    and "featureGroups (updateSaonesLayer s)
           = featureGroups s @ [[\<lparr>f_url = tims, f_where = whereClause (saones s)\<rparr>]]"
    and "mapLayers (updateSaonesLayer s) = mapLayers s @ [length (featureGroups s)]"
    and "layerControl (updateSaonesLayer s)
           = map_option (\<lambda>overlays. overlays @ [(length (featureGroups s), ''SA1 Boundaries'')])
               (layerControl s)"
  using assms
  by (simp_all add: updateSaonesLayer_def prepareGroup_def Let_def nth_append
      split: option.splits)

lemma updateSaonesLayer_clears:
  assumes "fglayer s = Some g" and "g < length (featureGroups s)" and "g \<in> set (mapLayers s)"
  shows "fglayer (updateSaonesLayer s) = Some g"
    and "featureGroups (updateSaonesLayer s)
           = (featureGroups s)[g := [\<lparr>f_url = tims, f_where = whereClause (saones s)\<rparr>]]"
    and "mapLayers (updateSaonesLayer s) = mapLayers s"
    and "layerControl (updateSaonesLayer s) = layerControl s"
  using assms
  by (simp_all add: updateSaonesLayer_def prepareGroup_def Let_def)

lemma updateSaonesLayer_keeps:
  assumes "fglayer s = Some g" and "g \<notin> set (mapLayers s)"
  shows "fglayer (updateSaonesLayer s) = Some g"
    and "featureGroups (updateSaonesLayer s)
           = (featureGroups s)[g := featureGroups s ! g
               @ [\<lparr>f_url = tims, f_where = whereClause (saones s)\<rparr>]]"
    and "mapLayers (updateSaonesLayer s) = mapLayers s"
    and "layerControl (updateSaonesLayer s) = layerControl s"
  using assms
  by (simp_all add: updateSaonesLayer_def prepareGroup_def Let_def)

text \<open>Refresh calls on a group that exists and that the map holds.\<close>

lemma refreshes_clear:
  assumes "fglayer s = Some (length G)" and "featureGroups s = G @ [grp]"
    and "length G \<in> set (mapLayers s)"
  shows "fglayer (fold refreshWith (codes # rest) s) = Some (length G)
    \<and> featureGroups (fold refreshWith (codes # rest) s)
        = G @ [[\<lparr>f_url = tims, f_where = whereClause (last (codes # rest))\<rparr>]]
    \<and> mapLayers (fold refreshWith (codes # rest) s) = mapLayers s
    \<and> layerControl (fold refreshWith (codes # rest) s) = layerControl s"
  using assms
proof (induction rest arbitrary: s grp codes)
  case Nil
  let ?s = "s\<lparr>saones := codes\<rparr>"
  have "fglayer ?s = Some (length G)" "length G < length (featureGroups ?s)"
    "length G \<in> set (mapLayers ?s)"
    using Nil by simp_all
  from updateSaonesLayer_clears [OF this] Nil show ?case
    by (simp add: refreshWith_def)
next
  case (Cons nxt rest)
  let ?s = "s\<lparr>saones := codes\<rparr>"
  let ?s1 = "refreshWith codes s"
  have pre: "fglayer ?s = Some (length G)" "length G < length (featureGroups ?s)"
    "length G \<in> set (mapLayers ?s)"
    using Cons.prems by simp_all
  have s1: "fglayer ?s1 = Some (length G)"
    "featureGroups ?s1 = G @ [[\<lparr>f_url = tims, f_where = whereClause codes\<rparr>]]"
    "mapLayers ?s1 = mapLayers s" "layerControl ?s1 = layerControl s"
    using updateSaonesLayer_clears [OF pre] Cons.prems by (simp_all add: refreshWith_def)
  have "length G \<in> set (mapLayers ?s1)"
    using s1(3) Cons.prems(3) by simp
  from Cons.IH [OF s1(1,2) this, of nxt] s1(3,4) show ?case
    by simp
qed

text \<open>
  A refresh call with no layer group yet creates the group, adds it to the map and
  registers it with the layer control when the control exists at that moment. A call
  with a group that the map holds clears the group in place before it adds the new
  remote layer, and creates and registers nothing; a group that the map does not hold
  is not cleared. Over a sequence of refresh calls the group is created by the first
  call and ends with the newest remote layer alone.
\<close>

lemma refresh_sequence_group:
  "(fglayer s = None \<longrightarrow>
      fglayer (fold refreshWith (codes # rest) s) = Some (length (featureGroups s))
      \<and> featureGroups (fold refreshWith (codes # rest) s)
          = featureGroups s
            @ [[\<lparr>f_url = tims, f_where = whereClause (last (codes # rest))\<rparr>]]
      \<and> mapLayers (fold refreshWith (codes # rest) s)
          = mapLayers s @ [length (featureGroups s)]
      \<and> layerControl (fold refreshWith (codes # rest) s)
          = map_option (\<lambda>overlays. overlays @ [(length (featureGroups s), ''SA1 Boundaries'')])
              (layerControl s))
   \<and> (fglayer s = Some g \<and> g < length (featureGroups s) \<and> g \<in> set (mapLayers s) \<longrightarrow>
        featureGroups (updateSaonesLayer s)
          = (featureGroups s)[g := [\<lparr>f_url = tims, f_where = whereClause (saones s)\<rparr>]]
        \<and> fglayer (updateSaonesLayer s) = Some g
        \<and> mapLayers (updateSaonesLayer s) = mapLayers s
        \<and> layerControl (updateSaonesLayer s) = layerControl s)
   \<and> (fglayer s = Some g \<and> g \<notin> set (mapLayers s) \<longrightarrow>
        featureGroups (updateSaonesLayer s)
          = (featureGroups s)[g := featureGroups s ! g
              @ [\<lparr>f_url = tims, f_where = whereClause (saones s)\<rparr>]]
        \<and> layerControl (updateSaonesLayer s) = layerControl s)"
proof -
  have first: "fglayer (fold refreshWith (codes # rest) s) = Some (length (featureGroups s))
      \<and> featureGroups (fold refreshWith (codes # rest) s)
          = featureGroups s
            @ [[\<lparr>f_url = tims, f_where = whereClause (last (codes # rest))\<rparr>]]
      \<and> mapLayers (fold refreshWith (codes # rest) s)
          = mapLayers s @ [length (featureGroups s)]
      \<and> layerControl (fold refreshWith (codes # rest) s)
          = map_option (\<lambda>overlays. overlays @ [(length (featureGroups s), ''SA1 Boundaries'')])
              (layerControl s)"
    if none: "fglayer s = None"
  proof -
    let ?G = "featureGroups s"
    let ?s1 = "refreshWith codes s"
    have "fglayer (s\<lparr>saones := codes\<rparr>) = None"
      using none by simp
    from updateSaonesLayer_creates [OF this]
    have s1: "fglayer ?s1 = Some (length ?G)"
      "featureGroups ?s1 = ?G @ [[\<lparr>f_url = tims, f_where = whereClause codes\<rparr>]]"
      "mapLayers ?s1 = mapLayers s @ [length ?G]"
      "layerControl ?s1
         = map_option (\<lambda>overlays. overlays @ [(length ?G, ''SA1 Boundaries'')]) (layerControl s)"
      by (simp_all add: refreshWith_def)
    show ?thesis
    proof (cases rest)
      case Nil
      then show ?thesis using s1 by simp
    next
      case (Cons c cs)
      have "length ?G \<in> set (mapLayers ?s1)"
        using s1(3) by simp
      from refreshes_clear [OF s1(1,2) this, of c cs] s1(3,4) Cons show ?thesis
        by simp
    qed
  qed
  show ?thesis
    using first updateSaonesLayer_clears [of s g] updateSaonesLayer_keeps [of s g]
    by blast
qed

lemma refresh_sequence_group_example:
  "fglayer (constructor\<lparr>layerControl := Some []\<rparr>) = None
   \<and> featureGroups (constructor\<lparr>layerControl := Some []\<rparr>) = []
   \<and> featureGroups (fold refreshWith [[''A''], [''B''], [''C'']]
        (constructor\<lparr>layerControl := Some []\<rparr>))
       = [[\<lparr>f_url = tims, f_where = whereClause [''C'']\<rparr>]]
   \<and> layerControl (fold refreshWith [[''A''], [''B''], [''C'']]
        (constructor\<lparr>layerControl := Some []\<rparr>))
       = Some [(0, ''SA1 Boundaries'')]
   \<and> fglayer (fold refreshWith [[''A''], [''B''], [''C'']]
        (constructor\<lparr>layerControl := Some []\<rparr>)) = Some 0"
proof -
  have a: "fglayer (constructor\<lparr>layerControl := Some []\<rparr>) = None"
    "featureGroups (constructor\<lparr>layerControl := Some []\<rparr>) = []"
    "mapLayers (constructor\<lparr>layerControl := Some []\<rparr>) = []"
    "layerControl (constructor\<lparr>layerControl := Some []\<rparr>) = Some []"
    by (simp_all add: constructor_def)
  show ?thesis
    using a refresh_sequence_group [of "constructor\<lparr>layerControl := Some []\<rparr>"
        "[''A'']" "[[''B''], [''C'']]" 0]
    by simp
qed

text \<open>
  Claim C6. The layer group is to be created and registered with the layered-control
  UI exactly once, on the first refresh call. In the host's usual order of calls the
  code does not register it at all: \<open>update\<close> sets \<open>inited\<close> and defers
  \<open>initLayersAndUI\<close> to the next animation frame, then calls \<open>updateSaonesLayer\<close> at
  once, so the first update that carries data creates the group while \<open>layerControl\<close>
  is still undefined; the later calls find the group and register nothing. After an
  update with the row \<open>A\<close>, an animation frame and the same update again (three refresh
  calls) the one group exists and the control holds no overlay, and the map has two
  legends. When the first update carries no data, the first refresh call comes after
  \<open>initLayersAndUI\<close> and does register the group.
\<close>

theorem C6_overlay_never_registered:
  "refreshes (run [Update (batch [(''A'', ''cand'', 0.2)]), AnimationFrame,
        Update (batch [(''A'', ''cand'', 0.2)])] constructor) = 3
   \<and> fglayer (snd (update (batch [(''A'', ''cand'', 0.2)]) constructor)) = Some 0
   \<and> layerControl (snd (update (batch [(''A'', ''cand'', 0.2)]) constructor)) = None
   \<and> fglayer (run [Update (batch [(''A'', ''cand'', 0.2)]), AnimationFrame,
        Update (batch [(''A'', ''cand'', 0.2)])] constructor) = Some 0
   \<and> length (featureGroups (run [Update (batch [(''A'', ''cand'', 0.2)]), AnimationFrame,
        Update (batch [(''A'', ''cand'', 0.2)])] constructor)) = 1
   \<and> layerControl (run [Update (batch [(''A'', ''cand'', 0.2)]), AnimationFrame,
        Update (batch [(''A'', ''cand'', 0.2)])] constructor) = Some []
   \<and> legends (run [Update (batch [(''A'', ''cand'', 0.2)]), AnimationFrame,
        Update (batch [(''A'', ''cand'', 0.2)])] constructor) = 2
   \<and> layerControl (run [Update \<lparr>dataViews = None\<rparr>, AnimationFrame,
        Update (batch [(''A'', ''cand'', 0.2)])] constructor)
       = Some [(0, ''SA1 Boundaries'')]"
  by code_simp

end
